theory Spec2Isabelle
  imports Complex_Main "HOL-Library.AList"
begin

section \<open>MultiBucket: provider selection and usage accounting\<close>

text \<open>
  A shallow embedding of the class \<^verbatim>\<open>MultiBucket\<close> (the part of \<^verbatim>\<open>src/test-file.js\<close>
  after the test suite): its constructor, \<^verbatim>\<open>updateConfig\<close>, \<^verbatim>\<open>getStorageProvider\<close>,
  \<^verbatim>\<open>createClient\<close>, \<^verbatim>\<open>generateUploadUrl\<close> and \<^verbatim>\<open>getStats\<close>.

  Conventions of the embedding.
  \<^item> JavaScript numbers are exact: weights, rate limits and the quotients that the
    strategies compare are rationals, counters are naturals, clock readings
    (\<^verbatim>\<open>Date.now()\<close>, milliseconds) are integers. The quotient that \<^verbatim>\<open>getStats\<close> prints
    is rounded to an IEEE 754 binary64 number, since its digits are printed; elsewhere
    rounding is not part of the model. Division by zero, which yields \<^verbatim>\<open>Infinity\<close> in
    the source, is written out where the source can reach it.
  \<^item> An optional property of a JavaScript object is an \<open>option\<close>; \<open>None\<close> is
    \<^verbatim>\<open>undefined\<close>.
  \<^item> The object \<^verbatim>\<open>this.providerUsage\<close> is an association list in insertion order with
    one entry per key; reading a property of a missing entry is the \<^verbatim>\<open>TypeError\<close> of the
    source. Provider ids are assumed not to name a property of \<^verbatim>\<open>Object.prototype\<close>.
  \<^item> A method that mutates \<^verbatim>\<open>this\<close> takes the session and returns the new one; a method
    that can throw returns its outcome together with the session as the throw leaves it.
  \<^item> \<^verbatim>\<open>Math.random()\<close>, \<^verbatim>\<open>Date.now()\<close>, \<^verbatim>\<open>crypto.randomUUID()\<close> and the request signer
    are parameters.
\<close>

subsection \<open>Data\<close>

text \<open>\<^verbatim>\<open>ProviderConfig\<close>: the field \<open>pid\<close> is the property \<^verbatim>\<open>id\<close>, \<open>ptype\<close> is \<^verbatim>\<open>type\<close>.\<close>

record provider =
  pid :: string
  ptype :: "string option"
  bucket :: "string option"
  region :: "string option"
  endpoint :: "string option"
  accessKeyId :: "string option"
  secretAccessKey :: "string option"
  weight :: "rat option"
  rateLimit :: "rat option"
  publicUrlBase :: "string option"
  forcePathStyle :: "bool option"

text \<open>An entry of \<^verbatim>\<open>this.providerUsage\<close>; \<open>usageRateLimit\<close> is its property \<^verbatim>\<open>rateLimit\<close>.\<close>

record usage =
  requestCount :: nat
  errorCount :: nat
  lastUsed :: int
  usageRateLimit :: rat

text \<open>The fields of \<^verbatim>\<open>this\<close> that the methods below read or write.\<close>

record session =
  providers :: "provider list"
  loadBalanceStrategy :: string
  defaultExpiry :: nat
  currentProviderIndex :: nat
  providerUsage :: "(string \<times> usage) list"

text \<open>The argument of the constructor.\<close>

record options =
  opt_providers :: "provider list option"
  opt_loadBalanceStrategy :: "string option"
  opt_defaultExpiry :: "nat option"

text \<open>The argument of \<^verbatim>\<open>updateConfig\<close>.\<close>

record config =
  cfg_providers :: "provider list option"
  removeStaleProviders :: bool
  cfg_loadBalanceStrategy :: "string option"
  cfg_defaultExpiry :: "nat option"

datatype error =
    NoProvidersConfigured
  | TypeError
  | ProviderNotFound "string option"
  | UnsupportedProviderType "string option"
  | SignerError string
  | RangeError
  | UploadUrlFailed error

subsection \<open>JavaScript idioms\<close>

text \<open>\<^verbatim>\<open>x || d\<close> on an optional number: \<^verbatim>\<open>undefined\<close> and \<^verbatim>\<open>0\<close> are falsy.\<close>

definition num_or :: "rat option \<Rightarrow> rat \<Rightarrow> rat" where
  "num_or x d = (case x of None \<Rightarrow> d | Some v \<Rightarrow> if v = 0 then d else v)"

definition nat_or :: "nat option \<Rightarrow> nat \<Rightarrow> nat" where
  "nat_or x d = (case x of None \<Rightarrow> d | Some v \<Rightarrow> if v = 0 then d else v)"

text \<open>\<^verbatim>\<open>x || d\<close> on an optional string: \<^verbatim>\<open>undefined\<close> and the empty string are falsy.\<close>

definition str_or :: "string option \<Rightarrow> string \<Rightarrow> string" where
  "str_or x d = (case x of None \<Rightarrow> d | Some v \<Rightarrow> if v = [] then d else v)"

definition truthy_str :: "string option \<Rightarrow> bool" where
  "truthy_str x = (case x of None \<Rightarrow> False | Some v \<Rightarrow> v \<noteq> [])"

text \<open>\<^verbatim>\<open>xs[i]\<close>: \<^verbatim>\<open>undefined\<close> out of range.\<close>

definition nth_opt :: "'a list \<Rightarrow> nat \<Rightarrow> 'a option" where
  "nth_opt xs i = (if i < length xs then Some (xs ! i) else None)"

text \<open>\<^verbatim>\<open>xs.findIndex(P)\<close>: \<open>None\<close> is the result \<^verbatim>\<open>-1\<close>.\<close>

fun findIndex :: "('a \<Rightarrow> bool) \<Rightarrow> 'a list \<Rightarrow> nat option" where
  "findIndex P [] = None"
| "findIndex P (x # xs) = (if P x then Some 0 else map_option Suc (findIndex P xs))"

text \<open>A property of one object spread over another: \<^verbatim>\<open>{...old, ...new}\<close>.\<close>

definition spread :: "'a option \<Rightarrow> 'a option \<Rightarrow> 'a option" where
  "spread old new = (case new of None \<Rightarrow> old | Some v \<Rightarrow> Some v)"

subsection \<open>Constructor\<close>

text \<open>The usage entry written at construction and at insertion.\<close>

definition freshUsage :: "provider \<Rightarrow> usage" where
  "freshUsage p =
     \<lparr>requestCount = 0, errorCount = 0, lastUsed = 0,
      usageRateLimit = num_or (rateLimit p) 1000\<rparr>"

definition MultiBucket :: "options \<Rightarrow> session" where
  "MultiBucket opts =
     (let ps = (case opt_providers opts of None \<Rightarrow> [] | Some ps \<Rightarrow> ps)
      in \<lparr>providers = ps,
          loadBalanceStrategy = str_or (opt_loadBalanceStrategy opts) ''round-robin'',
          defaultExpiry = nat_or (opt_defaultExpiry opts) 3600,
          currentProviderIndex = 0,
          providerUsage = foldl (\<lambda>us p. AList.update (pid p) (freshUsage p) us) [] ps\<rparr>)"

subsection \<open>updateConfig\<close>

definition mergeProvider :: "provider \<Rightarrow> provider \<Rightarrow> provider" where
  "mergeProvider old new =
     \<lparr>pid = pid new,
      ptype = spread (ptype old) (ptype new),
      bucket = spread (bucket old) (bucket new),
      region = spread (region old) (region new),
      endpoint = spread (endpoint old) (endpoint new),
      accessKeyId = spread (accessKeyId old) (accessKeyId new),
      secretAccessKey = spread (secretAccessKey old) (secretAccessKey new),
      weight = spread (weight old) (weight new),
      rateLimit = spread (rateLimit old) (rateLimit new),
      publicUrlBase = spread (publicUrlBase old) (publicUrlBase new),
      forcePathStyle = spread (forcePathStyle old) (forcePathStyle new)\<rparr>"

text \<open>The body of the \<^verbatim>\<open>forEach\<close> over the incoming providers.\<close>

definition upsertProvider :: "session \<Rightarrow> provider \<Rightarrow> session" where
  "upsertProvider s newProvider =
     (case findIndex (\<lambda>p. pid p = pid newProvider) (providers s) of
        Some existingProviderIndex \<Rightarrow>
          s\<lparr>providers := (providers s)
               [existingProviderIndex :=
                  mergeProvider (providers s ! existingProviderIndex) newProvider]\<rparr>
      | None \<Rightarrow>
          s\<lparr>providers := providers s @ [newProvider],
            providerUsage :=
              AList.update (pid newProvider) (freshUsage newProvider) (providerUsage s)\<rparr>)"

definition updateConfig :: "config \<Rightarrow> session \<Rightarrow> session" where
  "updateConfig configData s =
     (let s1 = (case cfg_providers configData of
                  None \<Rightarrow> s
                | Some newProviders \<Rightarrow>
                    (let s' = foldl upsertProvider s newProviders
                     in if removeStaleProviders configData
                        then s'\<lparr>providers :=
                                 filter (\<lambda>p. pid p \<in> set (map pid newProviders)) (providers s')\<rparr>
                        else s'));
          s2 = (case cfg_loadBalanceStrategy configData of
                  None \<Rightarrow> s1
                | Some strategy \<Rightarrow>
                    if strategy = [] then s1 else s1\<lparr>loadBalanceStrategy := strategy\<rparr>)
      in case cfg_defaultExpiry configData of
           None \<Rightarrow> s2
         | Some e \<Rightarrow> if e = 0 then s2 else s2\<lparr>defaultExpiry := e\<rparr>)"

subsection \<open>getStorageProvider\<close>

text \<open>\<^verbatim>\<open>this.providerUsage[k].f\<close>: a \<^verbatim>\<open>TypeError\<close> when the entry is missing.\<close>

definition usageOf :: "(string \<times> usage) list \<Rightarrow> string \<Rightarrow> error + usage" where
  "usageOf us k = (case map_of us k of None \<Rightarrow> Inl TypeError | Some u \<Rightarrow> Inr u)"

text \<open>\<^verbatim>\<open>ps.reduce(f, init)\<close> for a callback that can throw.\<close>

fun reduceE :: "('a \<Rightarrow> 'a \<Rightarrow> error + 'a) \<Rightarrow> 'a \<Rightarrow> 'a list \<Rightarrow> error + 'a" where
  "reduceE f least [] = Inr least"
| "reduceE f least (current # rest) =
     (case f least current of Inl e \<Rightarrow> Inl e | Inr least' \<Rightarrow> reduceE f least' rest)"

text \<open>The callback of \<^verbatim>\<open>least-used\<close>: the entry of \<^verbatim>\<open>current\<close> is read first.\<close>

definition leastUsed :: "(string \<times> usage) list \<Rightarrow> provider \<Rightarrow> provider \<Rightarrow> error + provider" where
  "leastUsed us least current =
     (case usageOf us (pid current) of
        Inl e \<Rightarrow> Inl e
      | Inr uc \<Rightarrow>
          (case usageOf us (pid least) of
             Inl e \<Rightarrow> Inl e
           | Inr ul \<Rightarrow> Inr (if requestCount uc < requestCount ul then current else least)))"

text \<open>\<^verbatim>\<open>usage.errorCount / (usage.requestCount || 1)\<close>.\<close>

definition errorRateOf :: "usage \<Rightarrow> rat" where
  "errorRateOf u =
     of_nat (errorCount u) / of_nat (if requestCount u = 0 then 1 else requestCount u)"

text \<open>The callback of \<^verbatim>\<open>least-errors\<close>: the entry of \<^verbatim>\<open>least\<close> is read first.\<close>

definition leastErrors :: "(string \<times> usage) list \<Rightarrow> provider \<Rightarrow> provider \<Rightarrow> error + provider" where
  "leastErrors us least current =
     (case usageOf us (pid least) of
        Inl e \<Rightarrow> Inl e
      | Inr ul \<Rightarrow>
          (case usageOf us (pid current) of
             Inl e \<Rightarrow> Inl e
           | Inr uc \<Rightarrow> Inr (if errorRateOf uc < errorRateOf ul then current else least)))"

text \<open>\<^verbatim>\<open>weighted-random\<close>: the sum of \<^verbatim>\<open>provider.weight || 1\<close> and the scan of the list.\<close>

definition totalWeight :: "provider list \<Rightarrow> rat" where
  "totalWeight ps = foldl (\<lambda>sum p. sum + num_or (weight p) 1) 0 ps"

fun weightedScan :: "rat \<Rightarrow> provider list \<Rightarrow> provider option" where
  "weightedScan random [] = None"
| "weightedScan random (p # ps) =
     (let w = num_or (weight p) 1
      in if random < w then Some p else weightedScan (random - w) ps)"

text \<open>
  The \<^verbatim>\<open>switch\<close> on the strategy. \<open>rnd\<close> is the value of \<^verbatim>\<open>Math.random()\<close>, \<open>first\<close> is
  \<^verbatim>\<open>this.providers[0]\<close> of a list already known to be non-empty. The result of
  \<^verbatim>\<open>round-robin\<close> is \<^verbatim>\<open>undefined\<close> when the cursor is outside the list.
\<close>

definition selectCandidate ::
  "rat \<Rightarrow> provider \<Rightarrow> session \<Rightarrow> (error + provider option) \<times> session" where
  "selectCandidate rnd first s =
     (let ps = providers s; us = providerUsage s
      in if loadBalanceStrategy s = ''round-robin'' then
           (Inr (nth_opt ps (currentProviderIndex s)),
            s\<lparr>currentProviderIndex := (currentProviderIndex s + 1) mod length ps\<rparr>)
         else if loadBalanceStrategy s = ''least-used'' then
           (map_sum id Some (reduceE (leastUsed us) first ps), s)
         else if loadBalanceStrategy s = ''least-errors'' then
           (map_sum id Some (reduceE (leastErrors us) first ps), s)
         else if loadBalanceStrategy s = ''weighted-random'' then
           (Inr (Some (case weightedScan (rnd * totalWeight ps) ps of
                         Some p \<Rightarrow> p
                       | None \<Rightarrow> first)), s)
         else (Inr (Some first), s))"

text \<open>
  \<^verbatim>\<open>now - usage.lastUsed < (1000 / usage.rateLimit)\<close> and its complement in the callback
  of \<^verbatim>\<open>find\<close>; \<^verbatim>\<open>1000 / 0\<close> is \<^verbatim>\<open>Infinity\<close>.
\<close>

definition rateLimited :: "int \<Rightarrow> usage \<Rightarrow> bool" where
  "rateLimited now u =
     (if usageRateLimit u = 0 then True
      else of_int (now - lastUsed u) < 1000 / usageRateLimit u)"

definition available :: "int \<Rightarrow> usage \<Rightarrow> bool" where
  "available now u =
     (if usageRateLimit u = 0 then False
      else of_int (now - lastUsed u) \<ge> 1000 / usageRateLimit u)"

text \<open>\<^verbatim>\<open>this.providers.find(p => ...)\<close> with the callback above.\<close>

fun findAvailable ::
  "(string \<times> usage) list \<Rightarrow> int \<Rightarrow> provider list \<Rightarrow> error + provider option" where
  "findAvailable us now [] = Inr None"
| "findAvailable us now (p # ps) =
     (case usageOf us (pid p) of
        Inl e \<Rightarrow> Inl e
      | Inr u \<Rightarrow> if available now u then Inr (Some p) else findAvailable us now ps)"

text \<open>
  The rate-limit check and the update of the usage metrics. The entry that is updated is
  the one bound to the constant \<^verbatim>\<open>providerUsage\<close> before the check, that of the
  strategy's candidate.
\<close>

definition rateGate :: "int \<Rightarrow> provider \<Rightarrow> session \<Rightarrow> (error + provider) \<times> session" where
  "rateGate now selectedProvider s =
     (case map_of (providerUsage s) (pid selectedProvider) of
        None \<Rightarrow> (Inl TypeError, s)
      | Some candidateUsage \<Rightarrow>
          (case (if rateLimited now candidateUsage
                 then findAvailable (providerUsage s) now (providers s)
                 else Inr None) of
             Inl e \<Rightarrow> (Inl e, s)
           | Inr availableProvider \<Rightarrow>
               (Inr (case availableProvider of
                       Some p \<Rightarrow> p
                     | None \<Rightarrow> selectedProvider),
                s\<lparr>providerUsage :=
                    AList.update (pid selectedProvider)
                      (candidateUsage\<lparr>requestCount := requestCount candidateUsage + 1,
                                       lastUsed := now\<rparr>)
                      (providerUsage s)\<rparr>)))"

definition getStorageProvider :: "rat \<Rightarrow> int \<Rightarrow> session \<Rightarrow> (error + provider) \<times> session" where
  "getStorageProvider rnd now s =
     (case providers s of
        [] \<Rightarrow> (Inl NoProvidersConfigured, s)
      | first # _ \<Rightarrow>
          (case selectCandidate rnd first s of
             (Inl e, s1) \<Rightarrow> (Inl e, s1)
           | (Inr None, s1) \<Rightarrow> (Inl TypeError, s1)
           | (Inr (Some selectedProvider), s1) \<Rightarrow> rateGate now selectedProvider s1))"

subsection \<open>createClient and generateUploadUrl\<close>

text \<open>The arguments of \<^verbatim>\<open>new S3Client(...)\<close>.\<close>

record client =
  cl_region :: "string option"
  cl_endpoint :: "string option"
  cl_accessKeyId :: "string option"
  cl_secretAccessKey :: "string option"
  cl_forcePathStyle :: bool

definition createClient :: "provider \<Rightarrow> error + client" where
  "createClient p =
     (if ptype p = Some ''s3'' then
        Inr \<lparr>cl_region = region p, cl_endpoint = endpoint p,
             cl_accessKeyId = accessKeyId p, cl_secretAccessKey = secretAccessKey p,
             cl_forcePathStyle = (case forcePathStyle p of None \<Rightarrow> False | Some b \<Rightarrow> b)\<rparr>
      else if ptype p = Some ''r2'' then
        Inr \<lparr>cl_region = Some ''auto'', cl_endpoint = endpoint p,
             cl_accessKeyId = accessKeyId p, cl_secretAccessKey = secretAccessKey p,
             cl_forcePathStyle = True\<rparr>
      else Inl (UnsupportedProviderType (ptype p)))"

text \<open>The argument of \<^verbatim>\<open>generateUploadUrl\<close>.\<close>

record uploadOptions =
  filename :: string
  contentType :: string
  expiry :: "nat option"
  path :: "string option"
  providerId :: "string option"

text \<open>The argument of \<^verbatim>\<open>new PutObjectCommand(...)\<close>.\<close>

record putObjectCommand =
  cmd_Bucket :: "string option"
  cmd_Key :: string
  cmd_ContentType :: string

text \<open>
  What the signer throws: its message and, when the error carries a truthy
  \<^verbatim>\<open>providerInfo\<close>, the \<^verbatim>\<open>id\<close> of that object.
\<close>

record signerFailure =
  sf_message :: string
  sf_providerInfo :: "string option"

text \<open>
  The object \<^verbatim>\<open>generateUploadUrl\<close> resolves to; \<open>expires\<close> is the time in milliseconds
  that the source prints as an ISO timestamp.
\<close>

record uploadUrlResult =
  uploadUrl :: string
  publicUrl :: "string option"
  key :: string
  res_bucket :: "string option"
  res_provider :: string
  expires :: int

text \<open>
  \<^verbatim>\<open>new Date(t).toISOString()\<close>: a time value beyond 8.64e15 milliseconds on either
  side of the epoch makes an invalid date, for which \<^verbatim>\<open>toISOString\<close> throws a
  \<^verbatim>\<open>RangeError\<close>. The result is the time value itself.
\<close>

definition toISOString :: "int \<Rightarrow> error + int" where
  "toISOString t = (if \<bar>t\<bar> \<le> 8640000000000000 then Inr t else Inl RangeError)"

text \<open>An optional string inside a template literal.\<close>

definition tpl :: "string option \<Rightarrow> string" where
  "tpl x = (case x of None \<Rightarrow> ''undefined'' | Some v \<Rightarrow> v)"

text \<open>\<^verbatim>\<open>s.replace(/\/$/g, '')\<close> and \<^verbatim>\<open>s.replace(/^\/|\/$/g, '')\<close>.\<close>

definition stripTrailingSlash :: "string \<Rightarrow> string" where
  "stripTrailingSlash s = (if s \<noteq> [] \<and> last s = CHR ''/'' then butlast s else s)"

definition stripSlashes :: "string \<Rightarrow> string" where
  "stripSlashes s =
     stripTrailingSlash (case s of [] \<Rightarrow> [] | c # cs \<Rightarrow> if c = CHR ''/'' then cs else s)"

text \<open>The constant \<^verbatim>\<open>key\<close> of \<^verbatim>\<open>generateUploadUrl\<close>.\<close>

definition objectKey :: "string \<Rightarrow> uploadOptions \<Rightarrow> string" where
  "objectKey uniqueId opts =
     (if truthy_str (path opts)
      then stripSlashes (tpl (path opts)) @ ''/'' @ uniqueId @ ''-'' @ filename opts
      else uniqueId @ ''-'' @ filename opts)"

text \<open>The \<^verbatim>\<open>catch\<close> block of \<^verbatim>\<open>generateUploadUrl\<close>.\<close>

definition uploadCatch ::
  "string option \<Rightarrow> error \<Rightarrow> session \<Rightarrow> (error + uploadUrlResult) \<times> session" where
  "uploadCatch providerInfo e s =
     (Inl (UploadUrlFailed e),
      case providerInfo of
        None \<Rightarrow> s
      | Some k \<Rightarrow>
          (case map_of (providerUsage s) k of
             None \<Rightarrow> s
           | Some u \<Rightarrow>
               s\<lparr>providerUsage :=
                   AList.update k (u\<lparr>errorCount := errorCount u + 1\<rparr>) (providerUsage s)\<rparr>))"

definition publicUrlOf :: "provider \<Rightarrow> string \<Rightarrow> string option" where
  "publicUrlOf p k =
     (if ptype p = Some ''s3'' then
        (if truthy_str (publicUrlBase p)
         then Some (stripTrailingSlash (tpl (publicUrlBase p)) @ ''/'' @ k)
         else Some (''https://'' @ tpl (bucket p) @ ''.s3.'' @ tpl (region p)
                      @ ''.amazonaws.com/'' @ k))
      else if ptype p = Some ''r2'' then
        (if truthy_str (publicUrlBase p)
         then Some (stripTrailingSlash (tpl (publicUrlBase p)) @ ''/'' @ k)
         else None)
      else None)"

text \<open>
  \<open>getSignedUrl\<close> is the request signer, \<open>uniqueId\<close> the value of
  \<^verbatim>\<open>crypto.randomUUID()\<close>, \<open>rnd\<close> and \<open>now\<close> what \<^verbatim>\<open>getStorageProvider\<close> draws and
  reads, \<open>now'\<close> the clock when the result is built. The result is built inside the
  \<^verbatim>\<open>try\<close> block, so a \<^verbatim>\<open>RangeError\<close> of \<^verbatim>\<open>toISOString\<close> goes through the
  \<^verbatim>\<open>catch\<close> block like any other error.
\<close>

definition generateUploadUrl ::
  "(client \<Rightarrow> putObjectCommand \<Rightarrow> nat \<Rightarrow> signerFailure + string) \<Rightarrow> string \<Rightarrow>
   rat \<Rightarrow> int \<Rightarrow> int \<Rightarrow> uploadOptions \<Rightarrow> session \<Rightarrow>
   (error + uploadUrlResult) \<times> session" where
  "generateUploadUrl getSignedUrl uniqueId rnd now now' opts s =
     (case (if truthy_str (providerId opts)
            then (case find (\<lambda>p. Some (pid p) = providerId opts) (providers s) of
                    None \<Rightarrow> (Inl (ProviderNotFound (providerId opts)), s)
                  | Some p \<Rightarrow> (Inr p, s))
            else getStorageProvider rnd now s) of
        (Inl e, s1) \<Rightarrow> uploadCatch None e s1
      | (Inr p, s1) \<Rightarrow>
          (case createClient p of
             Inl e \<Rightarrow> uploadCatch None e s1
           | Inr cl \<Rightarrow>
               (let k = objectKey uniqueId opts;
                    command = \<lparr>cmd_Bucket = bucket p, cmd_Key = k,
                               cmd_ContentType = contentType opts\<rparr>;
                    ex = nat_or (expiry opts) (defaultExpiry s1)
                in case getSignedUrl cl command ex of
                     Inl f \<Rightarrow> uploadCatch (sf_providerInfo f) (SignerError (sf_message f)) s1
                   | Inr signedUrl \<Rightarrow>
                       (case toISOString (now' + int ex * 1000) of
                          Inl e \<Rightarrow> uploadCatch None e s1
                        | Inr stamp \<Rightarrow>
                            (Inr \<lparr>uploadUrl = signedUrl, publicUrl = publicUrlOf p k,
                                  key = k, res_bucket = bucket p, res_provider = pid p,
                                  expires = stamp\<rparr>, s1)))))"

subsection \<open>getStats\<close>

text \<open>
  The property \<^verbatim>\<open>errorRate\<close> is a string or a number. \<open>NumberString x\<close> stands for the
  string that \<^verbatim>\<open>Number::toString\<close> makes of \<open>x\<close>, in exponential notation from
  \<open>10\<^sup>2\<^sup>1\<close> on; its digits are not modelled.
\<close>

datatype jsvalue = Str string | Num rat | NumberString rat

record providerStat =
  st_id :: string
  st_type :: "string option"
  st_requestCount :: nat
  st_errorCount :: nat
  errorRate :: jsvalue

record stats =
  providerCount :: nat
  totalRequests :: nat
  providerStats :: "providerStat list"

text \<open>
  The quotient \<^verbatim>\<open>a / b\<close> of two counters is an IEEE 754 binary64 number: the exact
  quotient rounded to 53 significant bits, to the nearest such number and to the one of
  even significand when two are equally near. \<open>bitLength n\<close> is the number of binary
  digits of \<open>n\<close>, \<open>pow2 k\<close> is \<open>2\<^sup>k\<close> for an integer \<open>k\<close>. The counters are natural numbers
  that are binary64 numbers themselves and \<open>b\<close> is not 0; a quotient in the subnormal
  range, below \<open>2\<^sup>-\<^sup>1\<^sup>0\<^sup>2\<^sup>2\<close>, is rounded like the others, which the four decimals of
  \<^verbatim>\<open>toFixed(4)\<close> cannot show.
\<close>

fun bitLength :: "nat \<Rightarrow> nat" where
  "bitLength n = (if n = 0 then 0 else Suc (bitLength (n div 2)))"

declare bitLength.simps [simp del]

definition pow2 :: "int \<Rightarrow> rat" where
  "pow2 k = (if 0 \<le> k then 2 ^ nat k else 1 / 2 ^ nat (- k))"

definition roundTiesToEven :: "rat \<Rightarrow> int" where
  "roundTiesToEven x =
     (let f = \<lfloor>x\<rfloor>; d = x - of_int f
      in if d < 1 / 2 then f
         else if 1 / 2 < d then f + 1
         else if even f then f else f + 1)"

definition divDouble :: "nat \<Rightarrow> nat \<Rightarrow> rat" where
  "divDouble a b =
     (if a = 0 then 0
      else (let q = of_nat a / of_nat b;
                d = int (bitLength a) - int (bitLength b);
                l = (if pow2 d \<le> q then d else d - 1);
                k = l - 52
            in of_int (roundTiesToEven (q / pow2 k)) * pow2 k))"

text \<open>The decimal digits of a natural number.\<close>

fun decimal :: "nat \<Rightarrow> string" where
  "decimal n =
     (if n < 10 then [char_of (48 + n)]
      else decimal (n div 10) @ [char_of (48 + n mod 10)])"

declare decimal.simps [simp del]

text \<open>
  \<^verbatim>\<open>x.toFixed(f)\<close> for a number \<open>x \<ge> 0\<close>. From \<open>10\<^sup>2\<^sup>1\<close> on the result is that of
  \<^verbatim>\<open>Number::toString\<close>. Below, it is the integer \<open>n\<close> nearest to \<open>x * 10^f\<close>, the larger
  of two, written with at least \<open>f + 1\<close> digits and a point before the last \<open>f\<close>; here
  \<open>x\<close> is the exact value of the binary64 number.
\<close>

definition fixedNotation :: "nat \<Rightarrow> rat \<Rightarrow> string" where
  "fixedNotation f x =
     (let n = nat \<lfloor>x * 10 ^ f + 1 / 2\<rfloor>;
          m = decimal n;
          m' = (if f \<noteq> 0 \<and> length m \<le> f
                then replicate (f + 1 - length m) (CHR ''0'') @ m else m)
      in if f = 0 then m'
         else take (length m' - f) m' @ ''.'' @ drop (length m' - f) m')"

definition toFixed :: "nat \<Rightarrow> rat \<Rightarrow> jsvalue" where
  "toFixed f x = (if 10 ^ 21 \<le> x then NumberString x else Str (fixedNotation f x))"

text \<open>\<^verbatim>\<open>xs.map(f)\<close> for a callback that can throw.\<close>

fun mapE :: "('a \<Rightarrow> error + 'b) \<Rightarrow> 'a list \<Rightarrow> error + 'b list" where
  "mapE f [] = Inr []"
| "mapE f (x # xs) =
     (case f x of
        Inl e \<Rightarrow> Inl e
      | Inr y \<Rightarrow> (case mapE f xs of Inl e \<Rightarrow> Inl e | Inr ys \<Rightarrow> Inr (y # ys)))"

definition providerStatOf :: "(string \<times> usage) list \<Rightarrow> provider \<Rightarrow> error + providerStat" where
  "providerStatOf us p =
     (case usageOf us (pid p) of
        Inl e \<Rightarrow> Inl e
      | Inr u \<Rightarrow>
          Inr \<lparr>st_id = pid p, st_type = ptype p,
               st_requestCount = requestCount u, st_errorCount = errorCount u,
               errorRate = (if requestCount u > 0
                            then toFixed 4 (divDouble (errorCount u) (requestCount u))
                            else Num 0)\<rparr>)"

definition getStats :: "session \<Rightarrow> error + stats" where
  "getStats s =
     (case mapE (providerStatOf (providerUsage s)) (providers s) of
        Inl e \<Rightarrow> Inl e
      | Inr sts \<Rightarrow>
          Inr \<lparr>providerCount = length (providers s),
               totalRequests =
                 foldl (\<lambda>sum u. sum + requestCount u) 0 (map snd (providerUsage s)),
               providerStats = sts\<rparr>)"

subsection \<open>Sessions of the test suite\<close>

text \<open>The two providers and the session that \<^verbatim>\<open>beforeEach\<close> of the test suite builds.\<close>

definition testS3 :: provider where
  "testS3 =
     \<lparr>pid = ''test-s3'', ptype = Some ''s3'', bucket = Some ''test-s3-bucket'',
      region = Some ''us-east-1'', endpoint = None,
      accessKeyId = Some ''test-access-key'', secretAccessKey = Some ''test-secret-key'',
      weight = None, rateLimit = None, publicUrlBase = None, forcePathStyle = None\<rparr>"

definition testR2 :: provider where
  "testR2 =
     \<lparr>pid = ''test-r2'', ptype = Some ''r2'', bucket = Some ''test-r2-bucket'',
      region = None, endpoint = Some ''https://test.r2.cloudflarestorage.com'',
      accessKeyId = Some ''test-r2-key'', secretAccessKey = Some ''test-r2-secret'',
      weight = None, rateLimit = None,
      publicUrlBase = Some ''https://test-cdn.example.com'', forcePathStyle = None\<rparr>"

definition presigner :: "provider list \<Rightarrow> string \<Rightarrow> session" where
  "presigner ps strategy =
     MultiBucket \<lparr>opt_providers = Some ps, opt_loadBalanceStrategy = Some strategy,
                  opt_defaultExpiry = Some 3600\<rparr>"

text \<open>A configuration update that names one id and its rate limit only.\<close>

definition rateLimitUpdate :: "string \<Rightarrow> rat \<Rightarrow> config" where
  "rateLimitUpdate i r =
     \<lparr>cfg_providers =
        Some [\<lparr>pid = i, ptype = None, bucket = None, region = None, endpoint = None,
               accessKeyId = None, secretAccessKey = None, weight = None,
               rateLimit = Some r, publicUrlBase = None, forcePathStyle = None\<rparr>],
      removeStaleProviders = False,
      cfg_loadBalanceStrategy = None, cfg_defaultExpiry = None\<rparr>"

text \<open>
  The session of the test suite with the counters of its usage entries written directly,
  as the tests do: \<open>(requestCount, errorCount, lastUsed)\<close> for \<^verbatim>\<open>test-s3\<close> and for
  \<^verbatim>\<open>test-r2\<close>.
\<close>

definition presignerWith :: "string \<Rightarrow> nat \<times> nat \<times> int \<Rightarrow> nat \<times> nat \<times> int \<Rightarrow> session" where
  "presignerWith strategy c1 c2 =
     (presigner [testS3, testR2] strategy)
       \<lparr>providerUsage :=
          [(''test-s3'', \<lparr>requestCount = fst c1, errorCount = fst (snd c1),
                           lastUsed = snd (snd c1), usageRateLimit = 1000\<rparr>),
           (''test-r2'', \<lparr>requestCount = fst c2, errorCount = fst (snd c2),
                           lastUsed = snd (snd c2), usageRateLimit = 1000\<rparr>)]\<rparr>"

text \<open>The signer that the test suite mocks, for a \<^verbatim>\<open>PutObjectCommand\<close>.\<close>

definition mockSignedUrl :: "client \<Rightarrow> putObjectCommand \<Rightarrow> nat \<Rightarrow> signerFailure + string" where
  "mockSignedUrl cl command ex =
     Inr (''https://'' @ tpl (cmd_Bucket command) @ ''.example.com/'' @ cmd_Key command
            @ ''?X-Amz-Algorithm=AWS4-HMAC-SHA256&X-Amz-Credential=EXAMPLE'')"

text \<open>The options of the upload test, with an explicit provider.\<close>

definition testUpload :: "string \<Rightarrow> uploadOptions" where
  "testUpload k =
     \<lparr>filename = ''test.jpg'', contentType = ''image/jpeg'', expiry = None,
      path = Some ''uploads'', providerId = Some k\<rparr>"

text \<open>A configuration update that lists the given providers and removes the others.\<close>

definition onlyProviders :: "provider list \<Rightarrow> config" where
  "onlyProviders ps =
     \<lparr>cfg_providers = Some ps, removeStaleProviders = True,
      cfg_loadBalanceStrategy = None, cfg_defaultExpiry = None\<rparr>"

subsection \<open>Runs, reachable sessions and the predicates of the properties\<close>

text \<open>
  Successive calls of \<^verbatim>\<open>getStorageProvider\<close>, one for each pair of a value of
  \<^verbatim>\<open>Math.random()\<close> and a clock reading, with the outcomes in order.
\<close>

fun selections :: "(rat \<times> int) list \<Rightarrow> session \<Rightarrow> (error + provider) list \<times> session" where
  "selections [] s = ([], s)"
| "selections ((rnd, now) # later) s =
     (case getStorageProvider rnd now s of
        (r, s') \<Rightarrow> (case selections later s' of (rs, s'') \<Rightarrow> (r # rs, s'')))"

text \<open>The sessions that the constructor and the methods can produce.\<close>

inductive reachable :: "session \<Rightarrow> bool" where
  constructed: "reachable (MultiBucket opts)"
| configured: "reachable s \<Longrightarrow> reachable (updateConfig configData s)"
| selected: "reachable s \<Longrightarrow> reachable (snd (getStorageProvider rnd now s))"
| uploaded:
    "reachable s \<Longrightarrow>
     reachable (snd (generateUploadUrl getSignedUrl uniqueId rnd now now' opts s))"

text \<open>Every provider of the list has an entry in \<^verbatim>\<open>this.providerUsage\<close>.\<close>

definition tracked :: "session \<Rightarrow> bool" where
  "tracked s = list_all (\<lambda>p. map_of (providerUsage s) (pid p) \<noteq> None) (providers s)"

text \<open>
  The rate-limit check of provider \<open>p\<close> is satisfied at the clock reading \<open>now\<close>:
  \<^verbatim>\<open>now - usage.lastUsed >= 1000 / usage.rateLimit\<close> on its usage entry.
\<close>

definition gateSatisfied :: "int \<Rightarrow> session \<Rightarrow> provider \<Rightarrow> bool" where
  "gateSatisfied now s p =
     (case map_of (providerUsage s) (pid p) of None \<Rightarrow> False | Some u \<Rightarrow> available now u)"

text \<open>A decimal digit, and the number that a string of decimal digits denotes.\<close>

definition isDigit :: "char \<Rightarrow> bool" where
  "isDigit c = (48 \<le> (of_char c :: nat) \<and> (of_char c :: nat) \<le> 57)"

definition digitsValue :: "string \<Rightarrow> nat" where
  "digitsValue cs = foldl (\<lambda>v c. 10 * v + (of_char c - 48)) 0 cs"


section \<open>Properties\<close>

subsection \<open>The candidate and the rate-limit check\<close>

lemma available_iff: "available now u \<longleftrightarrow> \<not> rateLimited now u"
  by (auto simp: available_def rateLimited_def)

lemma reduceE_mem:
  assumes "reduceE f a xs = Inr r"
      and "\<And>l c r'. f l c = Inr r' \<Longrightarrow> r' = l \<or> r' = c"
  shows "r = a \<or> r \<in> set xs"
  using assms(1)
proof (induction xs arbitrary: a)
  case Nil
  then show ?case by simp
next
  case (Cons x xs)
  then obtain l where l: "f a x = Inr l" and r: "reduceE f l xs = Inr r"
    by (auto split: sum.splits)
  from assms(2) [OF l] Cons.IH [OF r] show ?case by auto
qed

lemma leastUsed_pick: "leastUsed us l c = Inr r \<Longrightarrow> r = l \<or> r = c"
  by (auto simp: leastUsed_def split: sum.splits if_splits)

lemma leastErrors_pick: "leastErrors us l c = Inr r \<Longrightarrow> r = l \<or> r = c"
  by (auto simp: leastErrors_def split: sum.splits if_splits)

lemma weightedScan_mem: "weightedScan x ps = Some p \<Longrightarrow> p \<in> set ps"
  by (induction ps arbitrary: x) (auto simp: Let_def split: if_splits)

lemma selectCandidate_frame:
  "selectCandidate rnd first s = (r, s1) \<Longrightarrow>
     providers s1 = providers s \<and> providerUsage s1 = providerUsage s"
  by (auto simp: selectCandidate_def Let_def split: if_splits)

lemma selectCandidate_mem:
  assumes "selectCandidate rnd first s = (Inr (Some c), s1)" and "first \<in> set (providers s)"
  shows "c \<in> set (providers s)"
proof -
  consider (rr) "loadBalanceStrategy s = ''round-robin''"
    | (lu) "loadBalanceStrategy s \<noteq> ''round-robin''" "loadBalanceStrategy s = ''least-used''"
    | (le) "loadBalanceStrategy s \<noteq> ''round-robin''" "loadBalanceStrategy s \<noteq> ''least-used''"
           "loadBalanceStrategy s = ''least-errors''"
    | (wr) "loadBalanceStrategy s \<noteq> ''round-robin''" "loadBalanceStrategy s \<noteq> ''least-used''"
           "loadBalanceStrategy s \<noteq> ''least-errors''" "loadBalanceStrategy s = ''weighted-random''"
    | (dflt) "loadBalanceStrategy s \<noteq> ''round-robin''" "loadBalanceStrategy s \<noteq> ''least-used''"
           "loadBalanceStrategy s \<noteq> ''least-errors''" "loadBalanceStrategy s \<noteq> ''weighted-random''"
    by blast
  then show ?thesis
  proof cases
    case rr
    with assms(1) show ?thesis
      by (auto simp: selectCandidate_def Let_def nth_opt_def split: if_splits)
  next
    case lu
    with assms(1) have "reduceE (leastUsed (providerUsage s)) first (providers s) = Inr c"
      by (cases "reduceE (leastUsed (providerUsage s)) first (providers s)")
         (auto simp: selectCandidate_def Let_def)
    then have "c = first \<or> c \<in> set (providers s)"
      by (rule reduceE_mem) (rule leastUsed_pick)
    with assms(2) show ?thesis by auto
  next
    case le
    with assms(1) have "reduceE (leastErrors (providerUsage s)) first (providers s) = Inr c"
      by (cases "reduceE (leastErrors (providerUsage s)) first (providers s)")
         (auto simp: selectCandidate_def Let_def)
    then have "c = first \<or> c \<in> set (providers s)"
      by (rule reduceE_mem) (rule leastErrors_pick)
    with assms(2) show ?thesis by auto
  next
    case wr
    with assms show ?thesis
      by (auto simp: selectCandidate_def Let_def split: option.splits dest: weightedScan_mem)
  next
    case dflt
    with assms show ?thesis
      by (auto simp: selectCandidate_def Let_def)
  qed
qed



lemma findAvailable_find:
  assumes "\<forall>p\<in>set ps. map_of us (pid p) \<noteq> None"
  shows "findAvailable us now ps =
           Inr (find (\<lambda>p. case map_of us (pid p) of None \<Rightarrow> False | Some u \<Rightarrow> available now u) ps)"
  using assms by (induction ps) (auto simp: usageOf_def split: option.splits)

lemma gate_outcome:
  assumes "providers s = first # rest"
      and "tracked s"
      and "selectCandidate rnd first s = (Inr (Some c), s1)"
  shows "\<exists>p u. getStorageProvider rnd now s =
                  (Inr p, s1\<lparr>providerUsage := AList.update (pid c)
                     (u\<lparr>requestCount := requestCount u + 1, lastUsed := now\<rparr>)
                     (providerUsage s)\<rparr>)
           \<and> map_of (providerUsage s) (pid c) = Some u
           \<and> (if gateSatisfied now s c then p = c
              else if \<exists>q\<in>set (providers s). gateSatisfied now s q
                then \<exists>i<length (providers s). p = providers s ! i \<and> gateSatisfied now s p
                       \<and> (\<forall>j<i. \<not> gateSatisfied now s (providers s ! j))
                else p = c)"
proof -
  have fr: "providers s1 = providers s" "providerUsage s1 = providerUsage s"
    using selectCandidate_frame [OF assms(3)] by simp_all
  have "c \<in> set (providers s)"
    using selectCandidate_mem [OF assms(3)] assms(1) by simp
  with assms(2) obtain u where u: "map_of (providerUsage s) (pid c) = Some u"
    by (auto simp: tracked_def list_all_iff)
  define s' where
    "s' = s1\<lparr>providerUsage := AList.update (pid c)
              (u\<lparr>requestCount := requestCount u + 1, lastUsed := now\<rparr>) (providerUsage s)\<rparr>"
  have all: "\<forall>p\<in>set (providers s). map_of (providerUsage s) (pid p) \<noteq> None"
    using assms(2) by (simp add: tracked_def list_all_iff)
  have fa: "findAvailable (providerUsage s) now (providers s) =
              Inr (find (gateSatisfied now s) (providers s))"
    using findAvailable_find [OF all, of now] by (simp add: gateSatisfied_def [abs_def])
  have gc: "gateSatisfied now s c \<longleftrightarrow> \<not> rateLimited now u"
    by (simp add: gateSatisfied_def u available_iff)
  have "\<exists>p. getStorageProvider rnd now s = (Inr p, s')
           \<and> (if gateSatisfied now s c then p = c
              else if \<exists>q\<in>set (providers s). gateSatisfied now s q
                then \<exists>i<length (providers s). p = providers s ! i \<and> gateSatisfied now s p
                       \<and> (\<forall>j<i. \<not> gateSatisfied now s (providers s ! j))
                else p = c)"
  proof (cases "rateLimited now u")
    case False
    then have "getStorageProvider rnd now s = (Inr c, s')"
      using assms(1,3) u fr by (simp add: getStorageProvider_def rateGate_def s'_def)
    with False gc show ?thesis by simp
  next
    case True
    show ?thesis
    proof (cases "find (gateSatisfied now s) (providers s)")
      case None
      then have no: "\<not> (\<exists>q\<in>set (providers s). gateSatisfied now s q)"
        by (simp add: find_None_iff)
      have "getStorageProvider rnd now s = (Inr c, s')"
        using assms(1,3) u fr fa True None
        by (simp add: getStorageProvider_def rateGate_def s'_def)
      with True gc no show ?thesis by simp
    next
      case (Some p)
      then obtain i where i: "i < length (providers s)" "gateSatisfied now s (providers s ! i)"
          "p = providers s ! i" "\<forall>j<i. \<not> gateSatisfied now s (providers s ! j)"
        by (auto simp: find_Some_iff)
      then have ex: "\<exists>q\<in>set (providers s). gateSatisfied now s q"
        using nth_mem by blast
      have "getStorageProvider rnd now s = (Inr p, s')"
        using assms(1,3) u fr fa True Some
        by (simp add: getStorageProvider_def rateGate_def s'_def)
      with True gc ex i show ?thesis by auto
    qed
  qed
  with u show ?thesis unfolding s'_def by blast
qed

subsection \<open>Every provider keeps a usage entry\<close>

lemma foldl_freshUsage_dom:
  "map_of (foldl (\<lambda>us p. AList.update (pid p) (freshUsage p) us) us0 ps) k \<noteq> None
     \<longleftrightarrow> k \<in> pid ` set ps \<or> map_of us0 k \<noteq> None"
  by (induction ps arbitrary: us0) (auto simp: update_conv')

lemma tracked_MultiBucket: "tracked (MultiBucket opts)"
proof -
  have "map_of (foldl (\<lambda>us p. AList.update (pid p) (freshUsage p) us) [] ps) (pid p) \<noteq> None"
    if "p \<in> set ps" for p ps
    using that foldl_freshUsage_dom [of "[]" ps "pid p"] by blast
  then show ?thesis
    unfolding tracked_def list_all_iff MultiBucket_def Let_def
    by (cases "opt_providers opts") simp_all
qed

lemma findIndex_Some:
  "findIndex P xs = Some i \<Longrightarrow> i < length xs \<and> P (xs ! i)"
  by (induction xs arbitrary: i) (auto split: if_splits)

lemma tracked_upsertProvider:
  assumes "tracked s"
  shows "tracked (upsertProvider s np)"
proof (cases "findIndex (\<lambda>p. pid p = pid np) (providers s)")
  case None
  with assms show ?thesis
    by (auto simp: upsertProvider_def tracked_def list_all_iff update_conv')
next
  case (Some i)
  from findIndex_Some [OF Some] have i: "i < length (providers s)" "pid (providers s ! i) = pid np"
    by simp_all
  have "providers s ! i \<in> set (providers s)"
    using i(1) by simp
  with assms have "map_of (providerUsage s) (pid (providers s ! i)) \<noteq> None"
    unfolding tracked_def list_all_iff by blast
  with i(2) have "map_of (providerUsage s) (pid np) \<noteq> None"
    by simp
  moreover have "pid (mergeProvider (providers s ! i) np) = pid np"
    by (simp add: mergeProvider_def)
  ultimately show ?thesis
    using assms Some
    by (auto simp: upsertProvider_def tracked_def list_all_iff dest!: set_update_subset_insert [THEN subsetD])
qed

lemma tracked_foldl_upsertProvider:
  "tracked s \<Longrightarrow> tracked (foldl upsertProvider s nps)"
  by (induction nps arbitrary: s) (simp_all add: tracked_upsertProvider)

lemma tracked_updateConfig:
  assumes "tracked s"
  shows "tracked (updateConfig configData s)"
proof -
  define s1 where
    "s1 = (case cfg_providers configData of
             None \<Rightarrow> s
           | Some newProviders \<Rightarrow>
               (let s' = foldl upsertProvider s newProviders
                in if removeStaleProviders configData
                   then s'\<lparr>providers :=
                            filter (\<lambda>p. pid p \<in> set (map pid newProviders)) (providers s')\<rparr>
                   else s'))"
  have t1: "tracked s1"
  proof (cases "cfg_providers configData")
    case None
    with assms show ?thesis by (simp add: s1_def)
  next
    case (Some nps)
    have "tracked (foldl upsertProvider s nps)"
      using assms by (rule tracked_foldl_upsertProvider)
    then show ?thesis
      by (simp add: s1_def Some Let_def tracked_def list_all_iff)
  qed
  have "providers (updateConfig configData s) = providers s1"
       "providerUsage (updateConfig configData s) = providerUsage s1"
    by (simp_all add: updateConfig_def s1_def [symmetric] Let_def split: option.splits)
  with t1 show ?thesis
    by (simp add: tracked_def)
qed

lemma tracked_rateGate:
  assumes "tracked s"
  shows "tracked (snd (rateGate now c s))"
  using assms
  by (auto simp: rateGate_def tracked_def list_all_iff update_conv'
      split: option.splits sum.splits)

lemma tracked_getStorageProvider:
  assumes "tracked s"
  shows "tracked (snd (getStorageProvider rnd now s))"
proof (cases "providers s")
  case Nil
  with assms show ?thesis by (simp add: getStorageProvider_def)
next
  case (Cons first rest)
  obtain r s1 where sel: "selectCandidate rnd first s = (r, s1)"
    by (cases "selectCandidate rnd first s")
  from selectCandidate_frame [OF sel] assms have t1: "tracked s1"
    by (simp add: tracked_def)
  show ?thesis
    using Cons sel t1 tracked_rateGate [OF t1]
    by (auto simp: getStorageProvider_def split: sum.splits option.splits)
qed

lemma tracked_uploadCatch:
  "tracked s \<Longrightarrow> tracked (snd (uploadCatch info e s))"
  by (auto simp: uploadCatch_def tracked_def list_all_iff update_conv' split: option.splits)

lemma tracked_generateUploadUrl:
  assumes "tracked s"
  shows "tracked (snd (generateUploadUrl getSignedUrl uniqueId rnd now now' opts s))"
  using assms tracked_getStorageProvider [OF assms, of rnd now]
  by (auto simp: generateUploadUrl_def Let_def tracked_uploadCatch
      split: sum.splits option.splits prod.splits if_splits)

lemma reachable_tracked: "reachable s \<Longrightarrow> tracked s"
  by (induction rule: reachable.induct)
     (simp_all add: tracked_MultiBucket tracked_updateConfig tracked_getStorageProvider
        tracked_generateUploadUrl)

subsection \<open>The rate-limit check is soft\<close>




subsection \<open>Selection on an empty registry\<close>

text \<open>
  C5. Whatever the strategy, \<^verbatim>\<open>getStorageProvider\<close> on a session without providers throws
  the error \<open>NoProvidersConfigured\<close> and leaves the session, cursor and usage entries
  included, as it was.
\<close>

theorem getStorageProvider_empty:
  "providers s = [] \<Longrightarrow> getStorageProvider rnd now s = (Inl NoProvidersConfigured, s)"
  by (simp add: getStorageProvider_def)

theorem getStorageProvider_empty_witness:
  "providers (presigner [] ''least-used'') = []
   \<and> getStorageProvider (1 / 2) 1700000000000 (presigner [] ''least-used'')
       = (Inl NoProvidersConfigured, presigner [] ''least-used'')"
  using getStorageProvider_empty [of "presigner [] ''least-used''" "1 / 2" 1700000000000]
  by (simp add: presigner_def MultiBucket_def)

subsection \<open>The usage entry that a selection updates\<close>

text \<open>
  C1. The specification asks that the usage entry of the provider returned is the one updated, also
  when the rate-limit check replaced the candidate. The source updates the entry of the
  candidate. On the session of the test suite under \<^verbatim>\<open>least-errors\<close>, two selections at
  the same clock reading: the first returns \<^verbatim>\<open>test-s3\<close>; the second has the candidate
  \<^verbatim>\<open>test-s3\<close>, rate limited, and returns \<^verbatim>\<open>test-r2\<close>, yet the entry of \<^verbatim>\<open>test-s3\<close>
  counts two requests and the entry of \<^verbatim>\<open>test-r2\<close> is untouched.
\<close>

theorem usage_update_misses_substitute:
  "selections [(0, 1700000000000), (0, 1700000000000)]
     (presigner [testS3, testR2] ''least-errors'')
   = ([Inr testS3, Inr testR2],
      presignerWith ''least-errors'' (2, 0, 1700000000000) (0, 0, 0))"
  by code_simp

subsection \<open>Weight zero under weighted-random\<close>

text \<open>
  C2. The specification asks that a provider of weight 0 is never selected. The source reads the
  weight as \<^verbatim>\<open>provider.weight || 1\<close>, so a weight of 0 counts as 1. With the weights 1 and
  0 that the test suite sets and \<^verbatim>\<open>Math.random()\<close> at \<open>3/4\<close>, the total weight is 2, the
  draw is \<open>3/2\<close> and the provider of weight 0 is returned.
\<close>

theorem weight_zero_selected:
  "totalWeight [testS3\<lparr>weight := Some 1\<rparr>, testR2\<lparr>weight := Some 0\<rparr>] = 2
   \<and> fst (getStorageProvider (3 / 4) 1700000000000
            (presigner [testS3\<lparr>weight := Some 1\<rparr>, testR2\<lparr>weight := Some 0\<rparr>]
               ''weighted-random''))
       = Inr (testR2\<lparr>weight := Some 0\<rparr>)"
  by code_simp

subsection \<open>The rate limit kept in the usage entry\<close>

text \<open>
  C9. The specification asks that the usage entry of a provider always holds the rate limit the
  provider is configured with. The constructor and the insertion of a new provider write
  it; the merge of an existing provider does not. After the merge of
  \<^verbatim>\<open>{id: "test-s3", rateLimit: 200}\<close> into a session built with the rate limit 100,
  the provider has 200, its usage entry still 100, and at the clock reading 7, with the
  last use at 0, the entry is rate limited although \<open>1000 / 200 = 5\<close>.
\<close>

theorem merge_leaves_usage_rateLimit:
  "map rateLimit
     (providers (updateConfig (rateLimitUpdate ''test-s3'' 200)
        (presigner [testS3\<lparr>rateLimit := Some 100\<rparr>, testR2] ''round-robin'')))
   = [Some 200, None]
   \<and> map_option usageRateLimit
       (map_of (providerUsage (updateConfig (rateLimitUpdate ''test-s3'' 200)
          (presigner [testS3\<lparr>rateLimit := Some 100\<rparr>, testR2] ''round-robin'')))
        ''test-s3'')
      = Some 100
   \<and> map_option (rateLimited 7)
       (map_of (providerUsage (updateConfig (rateLimitUpdate ''test-s3'' 200)
          (presigner [testS3\<lparr>rateLimit := Some 100\<rparr>, testR2] ''round-robin'')))
        ''test-s3'')
      = Some True"
  by code_simp

subsection \<open>The least-errors strategy\<close>







subsection \<open>The round-robin strategy\<close>

lemma round_robin_selectCandidate:
  assumes "loadBalanceStrategy s = ''round-robin''"
      and "currentProviderIndex s < length (providers s)"
  shows "selectCandidate rnd first s =
           (Inr (Some (providers s ! currentProviderIndex s)),
            s\<lparr>currentProviderIndex := (currentProviderIndex s + 1) mod length (providers s)\<rparr>)"
  using assms by (simp add: selectCandidate_def nth_opt_def Let_def)

lemma rr_first_call:
  assumes "pid a \<noteq> pid b" "rateLimit a = None" "rateLimit b = None" "1 \<le> t1"
  shows "getStorageProvider x1 t1
           (MultiBucket \<lparr>opt_providers = Some [a, b], opt_loadBalanceStrategy = Some ''round-robin'',
                         opt_defaultExpiry = e\<rparr>)
         = (Inr a, \<lparr>providers = [a, b], loadBalanceStrategy = ''round-robin'',
               defaultExpiry = nat_or e 3600, currentProviderIndex = 1,
               providerUsage = [(pid a, \<lparr>requestCount = 1, errorCount = 0, lastUsed = t1, usageRateLimit = 1000\<rparr>),
                                (pid b, \<lparr>requestCount = 0, errorCount = 0, lastUsed = 0, usageRateLimit = 1000\<rparr>)]\<rparr>)"
  using assms
  by (simp add: getStorageProvider_def MultiBucket_def selectCandidate_def nth_opt_def rateGate_def
        freshUsage_def num_or_def str_or_def rateLimited_def)

lemma rr_second_call:
  assumes "pid a \<noteq> pid b" "1 \<le> t2"
  shows "getStorageProvider x2 t2
           \<lparr>providers = [a, b], loadBalanceStrategy = ''round-robin'',
               defaultExpiry = d, currentProviderIndex = 1,
               providerUsage = [(pid a, \<lparr>requestCount = 1, errorCount = 0, lastUsed = t1, usageRateLimit = 1000\<rparr>),
                                (pid b, \<lparr>requestCount = 0, errorCount = 0, lastUsed = 0, usageRateLimit = 1000\<rparr>)]\<rparr>
         = (Inr b, \<lparr>providers = [a, b], loadBalanceStrategy = ''round-robin'',
               defaultExpiry = d, currentProviderIndex = 0,
               providerUsage = [(pid a, \<lparr>requestCount = 1, errorCount = 0, lastUsed = t1, usageRateLimit = 1000\<rparr>),
                                (pid b, \<lparr>requestCount = 1, errorCount = 0, lastUsed = t2, usageRateLimit = 1000\<rparr>)]\<rparr>)"
  using assms
  by (simp add: getStorageProvider_def selectCandidate_def nth_opt_def rateGate_def rateLimited_def)

lemma rr_third_call:
  assumes "pid a \<noteq> pid b" "t1 \<le> t2" "t2 \<le> t3"
  shows "getStorageProvider x3 t3
           \<lparr>providers = [a, b], loadBalanceStrategy = ''round-robin'',
               defaultExpiry = d, currentProviderIndex = 0,
               providerUsage = [(pid a, \<lparr>requestCount = 1, errorCount = 0, lastUsed = t1, usageRateLimit = 1000\<rparr>),
                                (pid b, \<lparr>requestCount = 1, errorCount = 0, lastUsed = t2, usageRateLimit = 1000\<rparr>)]\<rparr>
         = (Inr a, \<lparr>providers = [a, b], loadBalanceStrategy = ''round-robin'',
               defaultExpiry = d, currentProviderIndex = 1,
               providerUsage = [(pid a, \<lparr>requestCount = 2, errorCount = 0, lastUsed = t3, usageRateLimit = 1000\<rparr>),
                                (pid b, \<lparr>requestCount = 1, errorCount = 0, lastUsed = t2, usageRateLimit = 1000\<rparr>)]\<rparr>)"
  using assms
  by (auto simp add: getStorageProvider_def selectCandidate_def nth_opt_def rateGate_def rateLimited_def
        usageOf_def available_def)

text \<open>
  C6, as amended. Under \<^verbatim>\<open>round-robin\<close>, with the cursor inside a list of providers that
  all have a usage entry, the candidate of the strategy is the provider at the cursor and
  the cursor advances by one modulo the length of the list; \<^verbatim>\<open>getStorageProvider\<close>
  returns the candidate when its rate-limit check is satisfied or no provider's is
  (otherwise the check substitutes another provider). Over two providers \<open>a\<close>, \<open>b\<close> of
  distinct ids, no configured rate limit and fresh usage entries, three calls at clock
  readings \<open>1 \<le> t1 \<le> t2 \<le> t3\<close> return \<open>a\<close>, \<open>b\<close>, \<open>a\<close>, and the cursor is back at 0
  after the second call.
\<close>

theorem round_robin_selection:
  "(loadBalanceStrategy s = ''round-robin'' \<and> providers s = first # rest \<and> tracked s
      \<and> currentProviderIndex s < length (providers s)
    \<longrightarrow> (\<exists>p s'.
           selectCandidate rnd first s =
             (Inr (Some (providers s ! currentProviderIndex s)),
              s\<lparr>currentProviderIndex := (currentProviderIndex s + 1) mod length (providers s)\<rparr>)
           \<and> getStorageProvider rnd now s = (Inr p, s')
           \<and> currentProviderIndex s' = (currentProviderIndex s + 1) mod length (providers s)
           \<and> (gateSatisfied now s (providers s ! currentProviderIndex s)
                \<or> \<not> (\<exists>q\<in>set (providers s). gateSatisfied now s q)
               \<longrightarrow> p = providers s ! currentProviderIndex s)))
   \<and> (pid a \<noteq> pid b \<and> rateLimit a = None \<and> rateLimit b = None
        \<and> 1 \<le> t1 \<and> t1 \<le> t2 \<and> t2 \<le> t3
      \<longrightarrow> fst (selections [(x1, t1), (x2, t2), (x3, t3)]
                 (MultiBucket \<lparr>opt_providers = Some [a, b],
                               opt_loadBalanceStrategy = Some ''round-robin'',
                               opt_defaultExpiry = e\<rparr>))
            = [Inr a, Inr b, Inr a]
          \<and> currentProviderIndex
              (snd (selections [(x1, t1), (x2, t2)]
                 (MultiBucket \<lparr>opt_providers = Some [a, b],
                               opt_loadBalanceStrategy = Some ''round-robin'',
                               opt_defaultExpiry = e\<rparr>)))
            = 0)"
proof (rule conjI; rule impI)
  assume h: "loadBalanceStrategy s = ''round-robin'' \<and> providers s = first # rest \<and> tracked s
      \<and> currentProviderIndex s < length (providers s)"
  define s1 where
    "s1 = s\<lparr>currentProviderIndex := (currentProviderIndex s + 1) mod length (providers s)\<rparr>"
  have sel: "selectCandidate rnd first s = (Inr (Some (providers s ! currentProviderIndex s)), s1)"
    using h round_robin_selectCandidate [of s rnd first] unfolding s1_def by blast
  from h have hp: "providers s = first # rest" and ht: "tracked s" by simp_all
  from gate_outcome [OF hp ht sel, of now]
  obtain p u where p: "getStorageProvider rnd now s =
        (Inr p, s1\<lparr>providerUsage := AList.update (pid (providers s ! currentProviderIndex s))
                    (u\<lparr>requestCount := requestCount u + 1, lastUsed := now\<rparr>)
                    (providerUsage s)\<rparr>)"
      "gateSatisfied now s (providers s ! currentProviderIndex s)
         \<or> \<not> (\<exists>q\<in>set (providers s). gateSatisfied now s q)
       \<longrightarrow> p = providers s ! currentProviderIndex s"
    by (auto split: if_splits)
  have "currentProviderIndex
          (s1\<lparr>providerUsage := AList.update (pid (providers s ! currentProviderIndex s))
                 (u\<lparr>requestCount := requestCount u + 1, lastUsed := now\<rparr>) (providerUsage s)\<rparr>)
        = (currentProviderIndex s + 1) mod length (providers s)"
    by (simp add: s1_def)
  with sel p show "\<exists>p s'.
           selectCandidate rnd first s =
             (Inr (Some (providers s ! currentProviderIndex s)),
              s\<lparr>currentProviderIndex := (currentProviderIndex s + 1) mod length (providers s)\<rparr>)
           \<and> getStorageProvider rnd now s = (Inr p, s')
           \<and> currentProviderIndex s' = (currentProviderIndex s + 1) mod length (providers s)
           \<and> (gateSatisfied now s (providers s ! currentProviderIndex s)
                \<or> \<not> (\<exists>q\<in>set (providers s). gateSatisfied now s q)
               \<longrightarrow> p = providers s ! currentProviderIndex s)"
    unfolding s1_def by blast
next
  assume h: "pid a \<noteq> pid b \<and> rateLimit a = None \<and> rateLimit b = None
        \<and> 1 \<le> t1 \<and> t1 \<le> t2 \<and> t2 \<le> t3"
  then have ab: "pid a \<noteq> pid b" and ra: "rateLimit a = None" and rb: "rateLimit b = None"
    and t1: "1 \<le> t1" and t12: "t1 \<le> t2" and t23: "t2 \<le> t3" and t2: "1 \<le> t2"
    by simp_all
  define s0 where
    "s0 = MultiBucket \<lparr>opt_providers = Some [a, b],
                        opt_loadBalanceStrategy = Some ''round-robin'',
                        opt_defaultExpiry = e\<rparr>"
  define st where
    "st = (\<lambda>i ca ta cb tb.
            \<lparr>providers = [a, b], loadBalanceStrategy = ''round-robin'',
             defaultExpiry = nat_or e 3600, currentProviderIndex = i,
             providerUsage =
               [(pid a, \<lparr>requestCount = ca, errorCount = 0, lastUsed = ta,
                         usageRateLimit = 1000\<rparr>),
                (pid b, \<lparr>requestCount = cb, errorCount = 0, lastUsed = tb,
                         usageRateLimit = 1000\<rparr>)]\<rparr>)"
  have e1: "getStorageProvider x1 t1 s0 = (Inr a, st 1 1 t1 0 0)"
    unfolding s0_def st_def by (rule rr_first_call [OF ab ra rb t1])
  have e2: "getStorageProvider x2 t2 (st 1 1 t1 0 0) = (Inr b, st 0 1 t1 1 t2)"
    unfolding st_def by (rule rr_second_call [OF ab t2])
  have e3: "getStorageProvider x3 t3 (st 0 1 t1 1 t2) = (Inr a, st 1 2 t3 1 t2)"
    unfolding st_def by (rule rr_third_call [OF ab t12 t23])
  have cs: "currentProviderIndex (st i ca ta cb tb) = i" for i ca ta cb tb
    by (simp add: st_def)
  show "fst (selections [(x1, t1), (x2, t2), (x3, t3)]
               (MultiBucket \<lparr>opt_providers = Some [a, b],
                             opt_loadBalanceStrategy = Some ''round-robin'',
                             opt_defaultExpiry = e\<rparr>))
          = [Inr a, Inr b, Inr a]
        \<and> currentProviderIndex
            (snd (selections [(x1, t1), (x2, t2)]
               (MultiBucket \<lparr>opt_providers = Some [a, b],
                             opt_loadBalanceStrategy = Some ''round-robin'',
                             opt_defaultExpiry = e\<rparr>)))
          = 0"
    unfolding s0_def [symmetric] selections.simps e1 e2 e3 prod.case fst_conv snd_conv cs
    by simp
qed

text \<open>
  The witness is the session of the test suite, with three calls of which the first two
  fall on the same clock reading.
\<close>

theorem round_robin_selection_witness:
  "loadBalanceStrategy (presigner [testS3, testR2] ''round-robin'') = ''round-robin''
   \<and> providers (presigner [testS3, testR2] ''round-robin'') = testS3 # [testR2]
   \<and> tracked (presigner [testS3, testR2] ''round-robin'')
   \<and> currentProviderIndex (presigner [testS3, testR2] ''round-robin'')
       < length (providers (presigner [testS3, testR2] ''round-robin''))
   \<and> pid testS3 \<noteq> pid testR2 \<and> rateLimit testS3 = None \<and> rateLimit testR2 = None
   \<and> (1::int) \<le> 1700000000000 \<and> (1700000000000::int) \<le> 1700000000000
   \<and> (1700000000000::int) \<le> 1700000000003
   \<and> fst (selections [(0, 1700000000000), (0, 1700000000000), (0, 1700000000003)]
            (presigner [testS3, testR2] ''round-robin''))
       = [Inr testS3, Inr testR2, Inr testS3]
   \<and> currentProviderIndex
        (snd (selections [(0, 1700000000000), (0, 1700000000000)]
               (presigner [testS3, testR2] ''round-robin'')))
       = 0"
proof -
  define s where "s = presigner [testS3, testR2] ''round-robin''"
  have h1: "loadBalanceStrategy s = ''round-robin''"
    unfolding s_def by code_simp
  have h2: "providers s = testS3 # [testR2]"
    unfolding s_def by code_simp
  have h3: "tracked s"
    unfolding s_def by code_simp
  have h4: "currentProviderIndex s < length (providers s)"
    unfolding s_def by code_simp
  have h5: "pid testS3 \<noteq> pid testR2" "rateLimit testS3 = None" "rateLimit testR2 = None"
    by (simp_all add: testS3_def testR2_def)
  have s_eq: "s = MultiBucket \<lparr>opt_providers = Some [testS3, testR2],
                               opt_loadBalanceStrategy = Some ''round-robin'',
                               opt_defaultExpiry = Some 3600\<rparr>"
    by (simp add: s_def presigner_def)
  from round_robin_selection [of s testS3 "[testR2]" 0 1700000000000 testS3 testR2
      1700000000000 1700000000000 1700000000003 0 0 0 "Some 3600"] h5
  have "fst (selections [(0, 1700000000000), (0, 1700000000000), (0, 1700000000003)] s)
          = [Inr testS3, Inr testR2, Inr testS3]
        \<and> currentProviderIndex
            (snd (selections [(0, 1700000000000), (0, 1700000000000)] s)) = 0"
    unfolding s_eq [symmetric] by simp
  with h1 h2 h3 h4 h5 show ?thesis
    unfolding s_def by simp
qed

text \<open>
  The statement of the specification fails as written. With a rate limit of 1 per second on \<^verbatim>\<open>test-s3\<close> and calls
  at three successive milliseconds, the third call finds the cursor at 0, where
  \<^verbatim>\<open>test-s3\<close> stands, and returns \<^verbatim>\<open>test-r2\<close>: the calls return \<^verbatim>\<open>test-s3\<close>,
  \<^verbatim>\<open>test-r2\<close>, \<^verbatim>\<open>test-r2\<close>.
\<close>

theorem round_robin_counterexample:
  "fst (selections [(0, 1700000000000), (0, 1700000000001), (0, 1700000000002)]
          (presigner [testS3\<lparr>rateLimit := Some 1\<rparr>, testR2] ''round-robin''))
   = [Inr (testS3\<lparr>rateLimit := Some 1\<rparr>), Inr testR2, Inr testR2]
   \<and> currentProviderIndex
        (snd (selections [(0, 1700000000000), (0, 1700000000001)]
               (presigner [testS3\<lparr>rateLimit := Some 1\<rparr>, testR2] ''round-robin'')))
       = 0
   \<and> nth_opt
        (providers
          (snd (selections [(0, 1700000000000), (0, 1700000000001)]
                 (presigner [testS3\<lparr>rateLimit := Some 1\<rparr>, testR2] ''round-robin''))))
        0
       = Some (testS3\<lparr>rateLimit := Some 1\<rparr>)"
  by code_simp

subsection \<open>Removal of stale providers\<close>

lemma upsertProvider_usage_other:
  "k \<noteq> pid np \<Longrightarrow> map_of (providerUsage (upsertProvider s np)) k = map_of (providerUsage s) k"
  by (auto simp add: upsertProvider_def update_conv' split: option.splits)

lemma foldl_upsertProvider_usage_other:
  "k \<notin> set (map pid nps) \<Longrightarrow>
     map_of (providerUsage (foldl upsertProvider s nps)) k = map_of (providerUsage s) k"
  by (induction nps arbitrary: s) (simp_all add: upsertProvider_usage_other)

lemma updateConfig_usage:
  "providerUsage (updateConfig cfg s) =
     (case cfg_providers cfg of None \<Rightarrow> providerUsage s
      | Some nps \<Rightarrow> providerUsage (foldl upsertProvider s nps))"
  by (simp add: updateConfig_def Let_def split: option.splits)

lemma updateConfig_providers_stale:
  "cfg_providers cfg = Some nps \<Longrightarrow> removeStaleProviders cfg \<Longrightarrow>
     providers (updateConfig cfg s) =
       filter (\<lambda>p. pid p \<in> set (map pid nps)) (providers (foldl upsertProvider s nps))"
  by (simp add: updateConfig_def Let_def split: option.splits)

lemma foldl_requestCount:
  "foldl (\<lambda>sum u. sum + requestCount u) a us = a + sum_list (map requestCount us)"
  by (induction us arbitrary: a) simp_all

lemma map_of_requestCount_le:
  "map_of us k = Some u \<Longrightarrow> requestCount u \<le> sum_list (map requestCount (map snd us))"
  by (induction us) (auto split: if_splits)

lemma getStats_totalRequests:
  "getStats s = Inr st \<Longrightarrow> totalRequests st = sum_list (map requestCount (map snd (providerUsage s)))"
  by (auto simp: getStats_def foldl_requestCount split: sum.splits)

text \<open>
  C3, as amended. A configuration update with a provider list and
  \<^verbatim>\<open>removeStaleProviders\<close> set removes from the provider list every provider whose id the
  incoming list omits; the usage entry of that id is kept as it was, and its request count
  remains part of \<^verbatim>\<open>totalRequests\<close> of \<^verbatim>\<open>getStats\<close>.
\<close>

theorem stale_provider_removed_usage_kept:
  assumes "cfg_providers cfg = Some nps"
      and "removeStaleProviders cfg"
      and "k \<notin> set (map pid nps)"
  shows "k \<notin> set (map pid (providers (updateConfig cfg s)))
         \<and> map_of (providerUsage (updateConfig cfg s)) k = map_of (providerUsage s) k
         \<and> (\<forall>u st. map_of (providerUsage s) k = Some u \<and> getStats (updateConfig cfg s) = Inr st
               \<longrightarrow> requestCount u \<le> totalRequests st)"
proof -
  have a: "k \<notin> set (map pid (providers (updateConfig cfg s)))"
    using assms by (auto simp: updateConfig_providers_stale)
  have b: "map_of (providerUsage (updateConfig cfg s)) k = map_of (providerUsage s) k"
    using assms(1,3) by (simp add: updateConfig_usage foldl_upsertProvider_usage_other)
  have c: "requestCount u \<le> totalRequests st"
    if "map_of (providerUsage s) k = Some u" "getStats (updateConfig cfg s) = Inr st" for u st
    using that b map_of_requestCount_le [of "providerUsage (updateConfig cfg s)" k u]
    by (simp add: getStats_totalRequests)
  from a b c show ?thesis by blast
qed

theorem stale_provider_removed_usage_kept_witness:
  "cfg_providers (onlyProviders [testS3]) = Some [testS3]
   \<and> removeStaleProviders (onlyProviders [testS3])
   \<and> ''test-r2'' \<notin> set (map pid [testS3])
   \<and> ''test-r2'' \<notin> set (map pid (providers
          (updateConfig (onlyProviders [testS3]) (presignerWith ''round-robin'' (1, 0, 5) (1, 0, 6)))))
   \<and> map_of (providerUsage
          (updateConfig (onlyProviders [testS3]) (presignerWith ''round-robin'' (1, 0, 5) (1, 0, 6))))
        ''test-r2''
       = Some \<lparr>requestCount = 1, errorCount = 0, lastUsed = 6, usageRateLimit = 1000\<rparr>
   \<and> (\<exists>st. getStats (updateConfig (onlyProviders [testS3])
                       (presignerWith ''round-robin'' (1, 0, 5) (1, 0, 6))) = Inr st
           \<and> 1 \<le> totalRequests st)"
proof -
  have h1: "cfg_providers (onlyProviders [testS3]) = Some [testS3]"
    by (simp add: onlyProviders_def)
  have h2: "removeStaleProviders (onlyProviders [testS3])"
    by (simp add: onlyProviders_def)
  have h3: "''test-r2'' \<notin> set (map pid [testS3])"
    by (simp add: testS3_def)
  have u: "map_of (providerUsage (presignerWith ''round-robin'' (1, 0, 5) (1, 0, 6))) ''test-r2''
           = Some \<lparr>requestCount = 1, errorCount = 0, lastUsed = 6, usageRateLimit = 1000\<rparr>"
    by (simp add: presignerWith_def)
  have "map_sum id totalRequests (getStats (updateConfig (onlyProviders [testS3])
                        (presignerWith ''round-robin'' (1, 0, 5) (1, 0, 6)))) = Inr 2"
    by code_simp
  then obtain st where st: "getStats (updateConfig (onlyProviders [testS3])
                        (presignerWith ''round-robin'' (1, 0, 5) (1, 0, 6))) = Inr st"
    by (cases "getStats (updateConfig (onlyProviders [testS3])
                 (presignerWith ''round-robin'' (1, 0, 5) (1, 0, 6)))") auto
  note kept = stale_provider_removed_usage_kept [OF h1 h2 h3,
      of "presignerWith ''round-robin'' (1, 0, 5) (1, 0, 6)"]
  from kept u st have "1 \<le> totalRequests st"
    by fastforce
  with kept u st h1 h2 h3 show ?thesis
    by simp
qed

text \<open>
  The statement of the specification fails as written. After one selection of each provider of the test suite, an
  update that lists \<^verbatim>\<open>test-s3\<close> only and removes stale providers leaves \<^verbatim>\<open>test-s3\<close> as
  the only provider, yet the usage entry of \<^verbatim>\<open>test-r2\<close> is still there and
  \<^verbatim>\<open>totalRequests\<close> still counts its request.
\<close>

theorem stale_usage_counterexample:
  "selections [(0, 1700000000000), (0, 1700000000001)]
     (presigner [testS3, testR2] ''round-robin'')
   = ([Inr testS3, Inr testR2],
      presignerWith ''round-robin'' (1, 0, 1700000000000) (1, 0, 1700000000001))
   \<and> map pid (providers (updateConfig (onlyProviders [testS3])
        (presignerWith ''round-robin'' (1, 0, 1700000000000) (1, 0, 1700000000001))))
      = [''test-s3'']
   \<and> map_option requestCount
       (map_of (providerUsage (updateConfig (onlyProviders [testS3])
          (presignerWith ''round-robin'' (1, 0, 1700000000000) (1, 0, 1700000000001))))
        ''test-r2'')
      = Some 1
   \<and> map_sum id totalRequests
       (getStats (updateConfig (onlyProviders [testS3])
          (presignerWith ''round-robin'' (1, 0, 1700000000000) (1, 0, 1700000000001))))
      = Inr 2
   \<and> map_sum id (map st_requestCount \<circ> providerStats)
       (getStats (updateConfig (onlyProviders [testS3])
          (presignerWith ''round-robin'' (1, 0, 1700000000000) (1, 0, 1700000000001))))
      = Inr [1]"
  by code_simp


subsection \<open>The statistics\<close>

lemma bitLength_0: "bitLength 0 = 0"
  by (subst bitLength.simps) simp

lemma bitLength_pos: "0 < n \<Longrightarrow> bitLength n = Suc (bitLength (n div 2))"
  by (subst bitLength.simps) simp

lemma bitLength_bounds:
  "0 < n \<Longrightarrow> 2 ^ (bitLength n - 1) \<le> n \<and> n < 2 ^ bitLength n"
proof (induction n rule: bitLength.induct)
  case (1 n)
  define h where "h = n div 2"
  have bl: "bitLength n = Suc (bitLength h)"
    using 1(2) by (simp add: bitLength_pos h_def)
  have n2: "2 * h \<le> n" "n < 2 * h + 2"
    unfolding h_def by presburger+
  show ?case
  proof (cases "h = 0")
    case True
    with n2 1(2) show ?thesis
      by (simp add: bl bitLength_0)
  next
    case False
    then have hp: "0 < h" by simp
    from 1(1) [OF _ hp [unfolded h_def]] 1(2)
    have ih: "2 ^ (bitLength h - 1) \<le> h" "h < 2 ^ bitLength h"
      by (simp_all add: h_def)
    define w where "w = bitLength h - 1"
    have bw: "bitLength h = Suc w"
      using hp by (simp add: w_def bitLength_pos)
    define p :: nat where "p = 2 ^ w"
    have ihp: "p \<le> h" "h < 2 * p"
      using ih by (simp_all add: bw p_def w_def [symmetric])
    have "2 * p \<le> n \<and> n < 2 * (2 * p)"
      using ihp n2 by linarith
    then show ?thesis
      by (simp add: bl bw p_def)
  qed
qed

lemma pow2_powi: "pow2 k = 2 powi k"
  by (simp add: pow2_def power_int_def power_one_over)

lemma pow2_pos: "0 < pow2 k"
  by (simp add: pow2_powi zero_less_power_int)

lemma pow2_add: "pow2 (i + j) = pow2 i * pow2 j"
  by (simp add: pow2_powi power_int_add)

lemma pow2_nat: "pow2 (int n) = 2 ^ n"
  by (simp add: pow2_def)

lemma roundTiesToEven_cases:
  "roundTiesToEven x = \<lfloor>x\<rfloor> \<and> x - of_int \<lfloor>x\<rfloor> \<le> 1 / 2
   \<or> roundTiesToEven x = \<lfloor>x\<rfloor> + 1 \<and> 1 / 2 \<le> x - of_int \<lfloor>x\<rfloor>"
  unfolding roundTiesToEven_def Let_def by (simp add: not_less)

lemma roundTiesToEven_near: "\<bar>of_int (roundTiesToEven x) - x\<bar> \<le> 1 / 2"
proof -
  have fl: "of_int \<lfloor>x\<rfloor> \<le> x" "x < of_int \<lfloor>x\<rfloor> + 1"
    by linarith+
  from roundTiesToEven_cases [of x] show ?thesis
  proof
    assume "roundTiesToEven x = \<lfloor>x\<rfloor> \<and> x - of_int \<lfloor>x\<rfloor> \<le> 1 / 2"
    with fl show ?thesis by simp
  next
    assume "roundTiesToEven x = \<lfloor>x\<rfloor> + 1 \<and> 1 / 2 \<le> x - of_int \<lfloor>x\<rfloor>"
    with fl show ?thesis by simp
  qed
qed

lemma roundTiesToEven_between:
  assumes "of_int i \<le> x" and "x < of_int j"
  shows "i \<le> roundTiesToEven x \<and> roundTiesToEven x \<le> j"
proof -
  have "i \<le> \<lfloor>x\<rfloor>"
    using assms(1) by (simp add: le_floor_iff)
  moreover have "\<lfloor>x\<rfloor> < j"
    using assms(2) by (simp add: floor_less_iff)
  ultimately show ?thesis
    using roundTiesToEven_cases [of x] by auto
qed

lemma divDouble_accurate:
  assumes "0 < a" and "0 < b"
  shows "\<exists>m k. divDouble a b = of_int m * pow2 k \<and> 2 ^ 52 \<le> m \<and> m \<le> 2 ^ 53
           \<and> \<bar>divDouble a b - of_nat a / of_nat b\<bar> \<le> of_nat a / of_nat b / 2 ^ 53"
proof -
  define q :: rat where "q = of_nat a / of_nat b"
  define la where "la = int (bitLength a)"
  define lb where "lb = int (bitLength b)"
  define d where "d = la - lb"
  define l where "l = (if pow2 d \<le> q then d else d - 1)"
  define k where "k = l - 52"
  define x where "x = q / pow2 k"
  define m where "m = roundTiesToEven x"
  have eq: "divDouble a b = of_int m * pow2 k"
    using assms(1)
    by (simp add: divDouble_def Let_def q_def d_def la_def lb_def l_def k_def m_def x_def)
  have bpos: "(0::rat) < of_nat b" and apos: "(0::rat) < of_nat a"
    using assms by simp_all
  have qpos: "0 < q"
    using apos bpos by (simp add: q_def)
  have bounds: "pow2 (int (bitLength n) - 1) \<le> of_nat n \<and> of_nat n < pow2 (int (bitLength n))"
    if "0 < n" for n
  proof -
    from bitLength_bounds [OF that]
    have nb: "2 ^ (bitLength n - 1) \<le> n" "n < 2 ^ bitLength n" by simp_all
    have "bitLength n = Suc (bitLength (n div 2))"
      using that by (rule bitLength_pos)
    then obtain w where w: "bitLength n = Suc w" ..
    have "pow2 (int (bitLength n) - 1) = pow2 (int w)"
      by (simp add: w)
    then have p1: "pow2 (int (bitLength n) - 1) = of_nat (2 ^ (bitLength n - 1))"
      by (simp add: pow2_nat w)
    have p2: "pow2 (int (bitLength n)) = of_nat (2 ^ bitLength n)"
      by (simp add: pow2_nat)
    show ?thesis
      unfolding p1 p2 using nb by (simp only: of_nat_le_iff of_nat_less_iff)
  qed
  from bounds [OF assms(1)] have a1: "pow2 (la - 1) \<le> of_nat a" and a2: "of_nat a < pow2 la"
    by (simp_all add: la_def)
  from bounds [OF assms(2)] have b1: "pow2 (lb - 1) \<le> of_nat b" and b2: "of_nat b < pow2 lb"
    by (simp_all add: lb_def)
  have lo: "pow2 (d - 1) < q"
  proof -
    have "pow2 (d - 1) * of_nat b < pow2 (d - 1) * pow2 lb"
      using b2 pow2_pos [of "d - 1"] by simp
    also have "\<dots> = pow2 (la - 1)"
      using pow2_add [of "d - 1" lb] by (simp add: d_def)
    also have "\<dots> \<le> of_nat a" by (rule a1)
    finally show ?thesis
      using bpos by (simp add: q_def pos_less_divide_eq)
  qed
  have hi: "q < pow2 (d + 1)"
  proof -
    have "of_nat a < pow2 la" by (rule a2)
    also have "\<dots> = pow2 (d + 1) * pow2 (lb - 1)"
      using pow2_add [of "d + 1" "lb - 1"] by (simp add: d_def)
    also have "\<dots> \<le> pow2 (d + 1) * of_nat b"
      using b1 pow2_pos [of "d + 1"] by simp
    finally show ?thesis
      using bpos by (simp add: q_def pos_divide_less_eq)
  qed
  have l1: "pow2 l \<le> q"
    using lo by (simp add: l_def)
  have l2: "q < pow2 (l + 1)"
  proof (cases "pow2 d \<le> q")
    case True
    with hi show ?thesis by (simp add: l_def)
  next
    case False
    then show ?thesis by (simp add: l_def)
  qed
  have kp: "0 < pow2 k" by (rule pow2_pos)
  have pl: "pow2 l = pow2 k * 2 ^ 52"
    using pow2_add [of k 52] pow2_nat [of 52] by (simp add: k_def)
  have pl1: "pow2 (l + 1) = pow2 k * 2 ^ 53"
    using pow2_add [of k 53] pow2_nat [of 53] by (simp add: k_def add.commute)
  have x1: "2 ^ 52 \<le> x"
    using l1 kp unfolding pl x_def by (simp add: pos_le_divide_eq mult.commute)
  have x2: "x < 2 ^ 53"
    using l2 kp unfolding pl1 x_def by (simp add: pos_divide_less_eq mult.commute)
  have mb: "2 ^ 52 \<le> m \<and> m \<le> 2 ^ 53"
    unfolding m_def using roundTiesToEven_between [of "2 ^ 52" x "2 ^ 53"] x1 x2 by simp
  have near: "\<bar>of_int m - x\<bar> \<le> 1 / 2"
    unfolding m_def by (rule roundTiesToEven_near)
  have qx: "q = x * pow2 k"
    using kp by (simp add: x_def)
  have "\<bar>of_int m * pow2 k - q\<bar> = \<bar>of_int m - x\<bar> * pow2 k"
    using kp by (simp add: qx left_diff_distrib [symmetric] abs_mult)
  also have "\<dots> \<le> 1 / 2 * pow2 k"
    using near kp by (simp add: mult_right_mono)
  also have "\<dots> = pow2 l / 2 ^ 53"
    unfolding pl by simp
  also have "\<dots> \<le> q / 2 ^ 53"
    using l1 by (simp add: divide_right_mono)
  finally have "\<bar>divDouble a b - of_nat a / of_nat b\<bar> \<le> of_nat a / of_nat b / 2 ^ 53"
    unfolding eq q_def .
  with eq mb show ?thesis by blast
qed

lemma divDouble_nonneg: "0 \<le> divDouble a b"
proof (cases "0 < a \<and> 0 < b")
  case True
  from divDouble_accurate [of a b] True
  obtain m k where "divDouble a b = of_int m * pow2 k" "2 ^ 52 \<le> m"
    by blast
  then show ?thesis
    using pow2_pos [of k] by simp
next
  case False
  then show ?thesis
    by (auto simp: divDouble_def Let_def roundTiesToEven_def)
qed

lemma divDouble_error:
  "0 < b \<Longrightarrow> \<bar>divDouble a b - of_nat a / of_nat b\<bar> \<le> of_nat a / of_nat b / 2 ^ 53"
  using divDouble_accurate [of a b] by (cases "a = 0") (auto simp: divDouble_def)

lemma decimal_nonempty: "decimal n \<noteq> []"
  by (subst decimal.simps) simp

lemma digit_code: "d < 10 \<Longrightarrow> (of_char (char_of (48 + d :: nat)) :: nat) = 48 + d"
  by simp

lemma isDigit_decimal: "c \<in> set (decimal n) \<Longrightarrow> isDigit c"
proof (induction n rule: decimal.induct)
  case (1 n)
  show ?case
  proof (cases "n < 10")
    case True
    with 1(2) have "c = char_of (48 + n)"
      by (subst (asm) decimal.simps) simp
    with True show ?thesis
      by (simp add: isDigit_def digit_code)
  next
    case False
    with 1(2) have "c \<in> set (decimal (n div 10)) \<or> c = char_of (48 + n mod 10)"
      by (subst (asm) decimal.simps) auto
    then show ?thesis
    proof
      assume "c \<in> set (decimal (n div 10))"
      with 1(1) False show ?thesis by simp
    next
      assume "c = char_of (48 + n mod 10)"
      then show ?thesis
        by (simp add: isDigit_def digit_code)
    qed
  qed
qed

lemma digitsValue_snoc: "digitsValue (cs @ [c]) = 10 * digitsValue cs + (of_char c - 48)"
  by (simp add: digitsValue_def)

lemma digitsValue_decimal: "digitsValue (decimal n) = n"
proof (induction n rule: decimal.induct)
  case (1 n)
  show ?case
  proof (cases "n < 10")
    case True
    then have "decimal n = [char_of (48 + n)]"
      by (subst decimal.simps) simp
    with True show ?thesis
      by (simp add: digitsValue_def digit_code)
  next
    case False
    then have "decimal n = decimal (n div 10) @ [char_of (48 + n mod 10)]"
      by (subst decimal.simps) simp
    with 1 False show ?thesis
      by (simp add: digitsValue_snoc digit_code)
  qed
qed

lemma digitsValue_zeros: "digitsValue (replicate j (CHR ''0'') @ cs) = digitsValue cs"
  by (induction j) (simp_all add: digitsValue_def)

lemma fixedNotation_4:
  assumes "0 \<le> x"
  shows "\<exists>ip fp. fixedNotation 4 x = ip @ ''.'' @ fp \<and> ip \<noteq> [] \<and> length fp = 4
           \<and> (\<forall>c\<in>set (ip @ fp). isDigit c)
           \<and> \<bar>of_nat (digitsValue (ip @ fp)) / 10 ^ 4 - x\<bar> \<le> 1 / 20000"
proof -
  define y where "y = x * 10 ^ 4 + 1 / 2"
  define n where "n = nat \<lfloor>y\<rfloor>"
  define m where "m = decimal n"
  define m' where "m' = (if length m \<le> 4 then replicate (4 + 1 - length m) (CHR ''0'') @ m else m)"
  define ip where "ip = take (length m' - 4) m'"
  define fp where "fp = drop (length m' - 4) m'"
  have mne: "m \<noteq> []"
    unfolding m_def by (rule decimal_nonempty)
  have len: "5 \<le> length m'"
    using mne by (auto simp: m'_def)
  have eq: "fixedNotation 4 x = ip @ ''.'' @ fp"
    by (simp add: fixedNotation_def Let_def m_def m'_def n_def y_def ip_def fp_def)
  have ipfp: "ip @ fp = m'"
    by (simp add: ip_def fp_def)
  have a: "ip \<noteq> []" using len by (auto simp: ip_def)
  have b: "length fp = 4" using len by (simp add: fp_def)
  have zero: "isDigit (CHR ''0'')"
    by (simp add: isDigit_def)
  have c: "\<forall>c\<in>set (ip @ fp). isDigit c"
    unfolding ipfp m'_def m_def using isDigit_decimal zero by auto
  have v: "digitsValue (ip @ fp) = n"
    unfolding ipfp m'_def m_def by (simp add: digitsValue_zeros digitsValue_decimal)
  have "0 \<le> y" using assms by (simp add: y_def)
  then have "0 \<le> \<lfloor>y\<rfloor>" by simp
  then have nn: "(of_nat n :: rat) = of_int \<lfloor>y\<rfloor>"
    by (simp add: n_def)
  define f :: rat where "f = of_int \<lfloor>y\<rfloor>"
  define z where "z = x * 10000"
  have "f \<le> y" "y < f + 1"
    unfolding f_def by linarith+
  moreover have "y = z + 1 / 2"
    by (simp add: y_def z_def)
  ultimately have "\<bar>f - z\<bar> \<le> 1 / 2"
    by linarith
  then have "\<bar>f - z\<bar> / 10000 \<le> 1 / 2 / 10000"
    by (rule divide_right_mono) simp
  moreover have "\<bar>f - z\<bar> / 10000 = \<bar>f / 10000 - x\<bar>"
  proof -
    have e: "f / 10000 - x = (f - z) / 10000"
      by (simp add: z_def diff_divide_distrib)
    show ?thesis
      unfolding e by simp
  qed
  ultimately have d: "\<bar>of_nat n / 10 ^ 4 - x\<bar> \<le> 1 / 20000"
    by (simp add: nn f_def)
  from eq a b c d v show ?thesis
    by (intro exI [of _ ip] exI [of _ fp]) simp
qed

lemma toFixed_4:
  assumes "0 \<le> x" and "x < 10 ^ 21"
  shows "\<exists>ip fp. toFixed 4 x = Str (ip @ ''.'' @ fp) \<and> ip \<noteq> [] \<and> length fp = 4
           \<and> (\<forall>c\<in>set (ip @ fp). isDigit c)
           \<and> \<bar>of_nat (digitsValue (ip @ fp)) / 10 ^ 4 - x\<bar> \<le> 1 / 20000"
  using fixedNotation_4 [OF assms(1)] assms(2) by (simp add: toFixed_def)

lemma toFixed_examples:
  "toFixed 4 (divDouble 5 100) = Str ''0.0500''"
  "toFixed 4 (divDouble 3 160) = Str ''0.0187''"
  by code_simp+

lemma divDouble_large:
  "divDouble 1000000000000000000000 1 = 1000000000000000000000"
  by (simp add: divDouble_def bitLength_pos bitLength_0 pow2_def roundTiesToEven_def Let_def)

lemma mapE_providerStatOf:
  assumes "\<forall>p\<in>set ps. map_of us (pid p) \<noteq> None"
  shows "\<exists>sts. mapE (providerStatOf us) ps = Inr sts \<and> length sts = length ps
           \<and> (\<forall>i<length ps. providerStatOf us (ps ! i) = Inr (sts ! i))"
  using assms
proof (induction ps)
  case Nil
  then show ?case by simp
next
  case (Cons p ps)
  then obtain sts where sts: "mapE (providerStatOf us) ps = Inr sts" "length sts = length ps"
      "\<forall>i<length ps. providerStatOf us (ps ! i) = Inr (sts ! i)"
    by auto
  from Cons.prems obtain st where st: "providerStatOf us p = Inr st"
    by (auto simp: providerStatOf_def usageOf_def)
  have "\<forall>i<length (p # ps). providerStatOf us ((p # ps) ! i) = Inr ((st # sts) ! i)"
    using st sts(3) by (auto simp: nth_Cons split: nat.splits)
  with st sts(1,2) show ?case by auto
qed


lemma divDouble_below:
  assumes "0 < b" and "a \<le> 9007199254740992"
  shows "divDouble a b < 10 ^ 21"
proof -
  define q :: rat where "q = of_nat a / of_nat b"
  have "(of_nat a :: rat) \<le> of_nat 9007199254740992"
    using assms(2) by (simp only: of_nat_le_iff)
  then have a: "(of_nat a :: rat) \<le> 9007199254740992"
    by simp
  have b: "(1 :: rat) \<le> of_nat b"
    using assms(1) by simp
  have "(of_nat a :: rat) * 1 \<le> of_nat a * of_nat b"
    using b by (intro mult_left_mono) simp_all
  then have "q \<le> of_nat a"
    unfolding q_def using b by (simp add: divide_le_eq)
  with a have q: "q \<le> 9007199254740992" by simp
  have q0: "0 \<le> q"
    by (simp add: q_def)
  from divDouble_error [OF assms(1), of a]
  have "divDouble a b \<le> q + q / 2 ^ 53"
    unfolding q_def by (simp add: abs_le_iff)
  also have "\<dots> \<le> q + q"
    using q0 by (simp add: divide_le_eq)
  also have "\<dots> < 10 ^ 21"
    using q by simp
  finally show ?thesis .
qed

text \<open>
  C4, as amended. When every provider has a usage entry and the counters are in the range
  where JavaScript counts exactly (the request counts sum to at most \<open>2\<^sup>5\<^sup>3\<close> and no error
  count exceeds \<open>2\<^sup>5\<^sup>3 = 9007199254740992\<close>), \<^verbatim>\<open>getStats\<close> returns \<open>providerCount\<close>
  equal to the number of providers, \<open>totalRequests\<close> equal to the sum of all request
  counts, and one entry per provider, in order, whose \<open>errorRate\<close> is the number 0 when
  the request count is 0 and otherwise what \<^verbatim>\<open>toFixed(4)\<close> makes of the binary64 quotient
  of \<open>errorCount\<close> by \<open>requestCount\<close>: a string of digits, a point and four digits that
  denotes a number within \<open>0.00005\<close> of that quotient, which is itself within a relative
  error of \<open>2\<^sup>-\<^sup>5\<^sup>3\<close> of the exact one. It is \<open>0.0500\<close> for 5 errors over 100 requests
  and \<open>0.0187\<close> for 3 errors over 160.
\<close>

theorem getStats_snapshot:
  assumes "tracked s"
      and "sum_list (map (\<lambda>(k, u). requestCount u) (providerUsage s)) \<le> 9007199254740992"
      and "\<forall>(k, u)\<in>set (providerUsage s). errorCount u \<le> 9007199254740992"
  shows "\<exists>st. getStats s = Inr st
           \<and> providerCount st = length (providers s)
           \<and> totalRequests st = sum_list (map (\<lambda>(k, u). requestCount u) (providerUsage s))
           \<and> length (providerStats st) = length (providers s)
           \<and> (\<forall>i<length (providers s).
                 \<exists>u. map_of (providerUsage s) (pid (providers s ! i)) = Some u
                    \<and> st_id (providerStats st ! i) = pid (providers s ! i)
                    \<and> st_requestCount (providerStats st ! i) = requestCount u
                    \<and> st_errorCount (providerStats st ! i) = errorCount u
                    \<and> errorRate (providerStats st ! i) =
                        (if requestCount u = 0 then Num 0
                         else toFixed 4 (divDouble (errorCount u) (requestCount u)))
                    \<and> (requestCount u \<noteq> 0 \<longrightarrow>
                         (\<exists>ip fp. errorRate (providerStats st ! i) = Str (ip @ ''.'' @ fp)
                            \<and> ip \<noteq> [] \<and> length fp = 4
                            \<and> (\<forall>c\<in>set (ip @ fp). isDigit c)
                            \<and> \<bar>of_nat (digitsValue (ip @ fp)) / 10 ^ 4
                                 - divDouble (errorCount u) (requestCount u)\<bar> \<le> 1 / 20000
                            \<and> \<bar>divDouble (errorCount u) (requestCount u)
                                 - of_nat (errorCount u) / of_nat (requestCount u)\<bar>
                                \<le> of_nat (errorCount u) / of_nat (requestCount u) / 2 ^ 53)))
           \<and> toFixed 4 (divDouble 5 100) = Str ''0.0500''
           \<and> toFixed 4 (divDouble 3 160) = Str ''0.0187''"
proof -
  have all: "\<forall>p\<in>set (providers s). map_of (providerUsage s) (pid p) \<noteq> None"
    using assms(1) by (simp add: tracked_def list_all_iff)
  from mapE_providerStatOf [OF all]
  obtain sts where sts: "mapE (providerStatOf (providerUsage s)) (providers s) = Inr sts"
      "length sts = length (providers s)"
      "\<forall>i<length (providers s). providerStatOf (providerUsage s) (providers s ! i) = Inr (sts ! i)"
    by blast
  define st where
    "st = \<lparr>providerCount = length (providers s),
           totalRequests = foldl (\<lambda>sum u. sum + requestCount u) 0 (map snd (providerUsage s)),
           providerStats = sts\<rparr>"
  have g: "getStats s = Inr st"
    using sts(1) by (simp add: getStats_def st_def)
  have cnt: "providerCount st = length (providers s)"
    by (simp add: st_def)
  have tot: "totalRequests st = sum_list (map (\<lambda>(k, u). requestCount u) (providerUsage s))"
    by (simp add: st_def foldl_requestCount case_prod_unfold comp_def)
  have len: "length (providerStats st) = length (providers s)"
    using sts(2) by (simp add: st_def)
  have each: "\<forall>i<length (providers s).
                \<exists>u. map_of (providerUsage s) (pid (providers s ! i)) = Some u
                   \<and> st_id (providerStats st ! i) = pid (providers s ! i)
                   \<and> st_requestCount (providerStats st ! i) = requestCount u
                   \<and> st_errorCount (providerStats st ! i) = errorCount u
                   \<and> errorRate (providerStats st ! i) =
                       (if requestCount u = 0 then Num 0
                        else toFixed 4 (divDouble (errorCount u) (requestCount u)))
                   \<and> (requestCount u \<noteq> 0 \<longrightarrow>
                        (\<exists>ip fp. errorRate (providerStats st ! i) = Str (ip @ ''.'' @ fp)
                           \<and> ip \<noteq> [] \<and> length fp = 4
                           \<and> (\<forall>c\<in>set (ip @ fp). isDigit c)
                           \<and> \<bar>of_nat (digitsValue (ip @ fp)) / 10 ^ 4
                                - divDouble (errorCount u) (requestCount u)\<bar> \<le> 1 / 20000
                           \<and> \<bar>divDouble (errorCount u) (requestCount u)
                                - of_nat (errorCount u) / of_nat (requestCount u)\<bar>
                               \<le> of_nat (errorCount u) / of_nat (requestCount u) / 2 ^ 53))"
  proof (intro allI impI)
    fix i assume i: "i < length (providers s)"
    from i all obtain u where u: "map_of (providerUsage s) (pid (providers s ! i)) = Some u"
      using nth_mem by blast
    from sts(3) i have "providerStatOf (providerUsage s) (providers s ! i) = Inr (sts ! i)"
      by blast
    with u have rec: "sts ! i =
        \<lparr>st_id = pid (providers s ! i), st_type = ptype (providers s ! i),
         st_requestCount = requestCount u, st_errorCount = errorCount u,
         errorRate = (if requestCount u > 0
                      then toFixed 4 (divDouble (errorCount u) (requestCount u))
                      else Num 0)\<rparr>"
      by (simp add: providerStatOf_def usageOf_def)
    have er: "errorRate (providerStats st ! i) =
                (if requestCount u = 0 then Num 0
                 else toFixed 4 (divDouble (errorCount u) (requestCount u)))"
      using rec by (simp add: st_def)
    have str: "\<exists>ip fp. errorRate (providerStats st ! i) = Str (ip @ ''.'' @ fp)
                 \<and> ip \<noteq> [] \<and> length fp = 4
                 \<and> (\<forall>c\<in>set (ip @ fp). isDigit c)
                 \<and> \<bar>of_nat (digitsValue (ip @ fp)) / 10 ^ 4
                      - divDouble (errorCount u) (requestCount u)\<bar> \<le> 1 / 20000
                 \<and> \<bar>divDouble (errorCount u) (requestCount u)
                      - of_nat (errorCount u) / of_nat (requestCount u)\<bar>
                     \<le> of_nat (errorCount u) / of_nat (requestCount u) / 2 ^ 53"
      if rc: "requestCount u \<noteq> 0"
    proof -
      from rc have pos: "0 < requestCount u" by simp
      from u have "(pid (providers s ! i), u) \<in> set (providerUsage s)"
        by (rule map_of_SomeD)
      with assms(3) have ec: "errorCount u \<le> 9007199254740992"
        by blast
      from toFixed_4 [OF divDouble_nonneg divDouble_below [OF pos ec]]
           divDouble_error [OF pos, of "errorCount u"] er rc
      show ?thesis by simp
    qed
    from u rec er str
    show "\<exists>u. map_of (providerUsage s) (pid (providers s ! i)) = Some u
            \<and> st_id (providerStats st ! i) = pid (providers s ! i)
            \<and> st_requestCount (providerStats st ! i) = requestCount u
            \<and> st_errorCount (providerStats st ! i) = errorCount u
            \<and> errorRate (providerStats st ! i) =
                (if requestCount u = 0 then Num 0
                 else toFixed 4 (divDouble (errorCount u) (requestCount u)))
            \<and> (requestCount u \<noteq> 0 \<longrightarrow>
                 (\<exists>ip fp. errorRate (providerStats st ! i) = Str (ip @ ''.'' @ fp)
                    \<and> ip \<noteq> [] \<and> length fp = 4
                    \<and> (\<forall>c\<in>set (ip @ fp). isDigit c)
                    \<and> \<bar>of_nat (digitsValue (ip @ fp)) / 10 ^ 4
                         - divDouble (errorCount u) (requestCount u)\<bar> \<le> 1 / 20000
                    \<and> \<bar>divDouble (errorCount u) (requestCount u)
                         - of_nat (errorCount u) / of_nat (requestCount u)\<bar>
                        \<le> of_nat (errorCount u) / of_nat (requestCount u) / 2 ^ 53))"
      by (intro exI [of _ u]) (simp add: st_def)
  qed
  from g cnt tot len each toFixed_examples show ?thesis
    by blast
qed

text \<open>The witness has the counters of the statistics test.\<close>

theorem getStats_snapshot_witness:
  "tracked (presignerWith ''round-robin'' (100, 5, 0) (50, 2, 0))
   \<and> sum_list (map (\<lambda>(k, u). requestCount u)
        (providerUsage (presignerWith ''round-robin'' (100, 5, 0) (50, 2, 0))))
       \<le> 9007199254740992
   \<and> list_all (\<lambda>(k, u). errorCount u \<le> 9007199254740992)
        (providerUsage (presignerWith ''round-robin'' (100, 5, 0) (50, 2, 0)))
   \<and> (\<exists>st. getStats (presignerWith ''round-robin'' (100, 5, 0) (50, 2, 0)) = Inr st
          \<and> providerCount st = 2 \<and> totalRequests st = 150)
   \<and> map_sum id (map errorRate \<circ> providerStats)
        (getStats (presignerWith ''round-robin'' (100, 5, 0) (50, 2, 0)))
       = Inr [Str ''0.0500'', Str ''0.0400'']"
proof -
  define s where "s = presignerWith ''round-robin'' (100, 5, 0) (50, 2, 0)"
  have h: "tracked s"
    unfolding s_def by code_simp
  have h2: "sum_list (map (\<lambda>(k, u). requestCount u) (providerUsage s)) \<le> 9007199254740992"
    unfolding s_def by (simp add: presignerWith_def)
  have h3: "\<forall>(k, u)\<in>set (providerUsage s). errorCount u \<le> 9007199254740992"
    unfolding s_def by (simp add: presignerWith_def)
  have n: "length (providers s) = 2"
    unfolding s_def by code_simp
  have t: "sum_list (map (\<lambda>(k, u). requestCount u) (providerUsage s)) = 150"
    unfolding s_def by (simp add: presignerWith_def)
  have v: "map_sum id (map errorRate \<circ> providerStats) (getStats s)
             = Inr [Str ''0.0500'', Str ''0.0400'']"
    unfolding s_def by code_simp
  from getStats_snapshot [OF h h2 h3] n t
  have a: "\<exists>st. getStats s = Inr st \<and> providerCount st = 2 \<and> totalRequests st = 150"
    by auto
  have h3': "list_all (\<lambda>(k, u). errorCount u \<le> 9007199254740992) (providerUsage s)"
    using h3 by (simp add: list_all_iff)
  from h h2 h3' a v show ?thesis
    unfolding s_def by blast
qed

text \<open>
  The statement of the specification fails as written. On the fresh session of the test
  suite the request counts are 0 and \<open>errorRate\<close> is the number 0 for both providers, not
  a string. With 3 errors over 160 requests \<open>errorRate\<close> is \<open>0.0187\<close>, where the exact
  quotient \<open>0.01875\<close> reads \<open>0.0188\<close> to four decimals. With \<open>10\<^sup>2\<^sup>1\<close> errors over one
  request, \<open>errorRate\<close> is the string of \<^verbatim>\<open>Number::toString\<close>, in exponential notation and
  not with four decimals.
\<close>

theorem errorRate_counterexample:
  "map_sum id (map errorRate \<circ> providerStats)
     (getStats (presigner [testS3, testR2] ''round-robin'')) = Inr [Num 0, Num 0]
   \<and> Num 0 \<noteq> Str ''0''
   \<and> map_sum id (map errorRate \<circ> providerStats)
       (getStats (presignerWith ''round-robin'' (160, 3, 0) (0, 0, 0)))
      = Inr [Str ''0.0187'', Num 0]
   \<and> fixedNotation 4 (3 / 160) = ''0.0188''
   \<and> map_sum id (map errorRate \<circ> providerStats)
       (getStats (presignerWith ''round-robin'' (1, 1000000000000000000000, 0) (0, 0, 0)))
      = Inr [NumberString 1000000000000000000000, Num 0]"
proof (intro conjI)
  show "map_sum id (map errorRate \<circ> providerStats)
          (getStats (presigner [testS3, testR2] ''round-robin'')) = Inr [Num 0, Num 0]"
    by code_simp
  show "Num 0 \<noteq> Str ''0''"
    by simp
  show "map_sum id (map errorRate \<circ> providerStats)
          (getStats (presignerWith ''round-robin'' (160, 3, 0) (0, 0, 0)))
        = Inr [Str ''0.0187'', Num 0]"
    by code_simp
  show "fixedNotation 4 (3 / 160) = ''0.0188''"
    by code_simp
  show "map_sum id (map errorRate \<circ> providerStats)
          (getStats (presignerWith ''round-robin'' (1, 1000000000000000000000, 0) (0, 0, 0)))
        = Inr [NumberString 1000000000000000000000, Num 0]"
    by (simp add: getStats_def presignerWith_def presigner_def MultiBucket_def
        providerStatOf_def usageOf_def testS3_def testR2_def toFixed_def
        divDouble_large [unfolded One_nat_def]
        str_or_def nat_or_def freshUsage_def num_or_def)
qed

subsection \<open>An explicit provider bypasses the selection\<close>

lemma update_errorCount_frame:
  assumes "map_of us k = Some u"
  shows "map (\<lambda>(k, u). (k, requestCount u, lastUsed u, usageRateLimit u))
           (AList.update k (u\<lparr>errorCount := n\<rparr>) us)
         = map (\<lambda>(k, u). (k, requestCount u, lastUsed u, usageRateLimit u)) us"
  using assms by (induction us) (auto split: if_splits)

lemma uploadCatch_frame:
  assumes "uploadCatch info e s = (r, s')"
  shows "currentProviderIndex s' = currentProviderIndex s \<and> providers s' = providers s
         \<and> map (\<lambda>(k, u). (k, requestCount u, lastUsed u, usageRateLimit u)) (providerUsage s')
            = map (\<lambda>(k, u). (k, requestCount u, lastUsed u, usageRateLimit u)) (providerUsage s)
         \<and> (\<exists>e'. r = Inl e')"
  using assms
  by (auto simp: uploadCatch_def update_errorCount_frame split: option.splits)

text \<open>
  C10. When \<^verbatim>\<open>generateUploadUrl\<close> is given a non-empty \<^verbatim>\<open>providerId\<close> that a provider of
  the list carries, \<^verbatim>\<open>getStorageProvider\<close> is not called: the cursor, the provider list
  and, in every usage entry, the request count, the time of last use and the rate limit
  are as before, whatever the signer does. When a result is returned, the whole session
  is unchanged and the result names that provider; a result is returned when the client
  can be created, the signer returns a URL and the time of expiry is in the range of
  \<^verbatim>\<open>Date\<close>; beyond that range the call fails with the \<^verbatim>\<open>RangeError\<close> after the signer
  has returned the URL, and the session is unchanged all the same.
\<close>

theorem explicit_provider_bypasses_selector:
  assumes "providerId opts = Some k"
      and "k \<noteq> []"
      and "find (\<lambda>p. Some (pid p) = providerId opts) (providers s) = Some p"
  shows "\<exists>r s'. generateUploadUrl getSignedUrl uniqueId rnd now now' opts s = (r, s')
           \<and> currentProviderIndex s' = currentProviderIndex s
           \<and> providers s' = providers s
           \<and> map (\<lambda>(k, u). (k, requestCount u, lastUsed u, usageRateLimit u)) (providerUsage s')
              = map (\<lambda>(k, u). (k, requestCount u, lastUsed u, usageRateLimit u)) (providerUsage s)
           \<and> (\<forall>res. r = Inr res \<longrightarrow> s' = s \<and> res_provider res = k)
           \<and> (\<forall>cl url. createClient p = Inr cl
                 \<and> getSignedUrl cl
                     \<lparr>cmd_Bucket = bucket p, cmd_Key = objectKey uniqueId opts,
                      cmd_ContentType = contentType opts\<rparr>
                     (nat_or (expiry opts) (defaultExpiry s)) = Inr url
                 \<longrightarrow> (if \<bar>now' + int (nat_or (expiry opts) (defaultExpiry s)) * 1000\<bar>
                          \<le> 8640000000000000
                      then \<exists>res. r = Inr res \<and> uploadUrl res = url
                      else r = Inl (UploadUrlFailed RangeError) \<and> s' = s))"
proof -
  have pk: "pid p = k"
    using assms(1,3) by (auto simp: find_Some_iff)
  have tr: "truthy_str (providerId opts)"
    using assms(1,2) by (simp add: truthy_str_def)
  define cmd where
    "cmd = \<lparr>cmd_Bucket = bucket p, cmd_Key = objectKey uniqueId opts,
            cmd_ContentType = contentType opts\<rparr>"
  define ex where "ex = nat_or (expiry opts) (defaultExpiry s)"
  have unfold: "generateUploadUrl getSignedUrl uniqueId rnd now now' opts s =
      (case createClient p of
         Inl e \<Rightarrow> uploadCatch None e s
       | Inr cl \<Rightarrow>
           (case getSignedUrl cl cmd ex of
              Inl f \<Rightarrow> uploadCatch (sf_providerInfo f) (SignerError (sf_message f)) s
            | Inr signedUrl \<Rightarrow>
                (if \<bar>now' + int ex * 1000\<bar> \<le> 8640000000000000
                 then (Inr \<lparr>uploadUrl = signedUrl,
                            publicUrl = publicUrlOf p (objectKey uniqueId opts),
                            key = objectKey uniqueId opts, res_bucket = bucket p,
                            res_provider = pid p, expires = now' + int ex * 1000\<rparr>, s)
                 else uploadCatch None RangeError s)))"
    using tr assms(3)
    by (simp add: generateUploadUrl_def Let_def cmd_def ex_def toISOString_def
        split: sum.splits)
  show ?thesis
  proof (cases "createClient p")
    case (Inl e)
    then show ?thesis
      unfolding unfold by (simp add: uploadCatch_def)
  next
    case cl: (Inr cl)
    show ?thesis
    proof (cases "getSignedUrl cl cmd ex")
      case (Inl f)
      obtain r s' where c: "uploadCatch (sf_providerInfo f) (SignerError (sf_message f)) s = (r, s')"
        by (cases "uploadCatch (sf_providerInfo f) (SignerError (sf_message f)) s")
      from uploadCatch_frame [OF c] c cl Inl show ?thesis
        unfolding unfold by (auto simp: cmd_def ex_def)
    next
      case (Inr url)
      with cl pk show ?thesis
        unfolding unfold by (simp add: cmd_def ex_def uploadCatch_def)
    qed
  qed
qed

text \<open>
  The witness is the upload of the test suite with \<^verbatim>\<open>test-r2\<close> named, the mocked signer
  and the default expiry of 3600 seconds.
\<close>

theorem explicit_provider_bypasses_selector_witness:
  "providerId (testUpload ''test-r2'') = Some ''test-r2''
   \<and> ''test-r2'' \<noteq> []
   \<and> find (\<lambda>p. Some (pid p) = providerId (testUpload ''test-r2''))
        (providers (presigner [testS3, testR2] ''round-robin'')) = Some testR2
   \<and> \<bar>1700000000000
        + int (nat_or (expiry (testUpload ''test-r2''))
                 (defaultExpiry (presigner [testS3, testR2] ''round-robin''))) * 1000\<bar>
       \<le> (8640000000000000 :: int)
   \<and> (\<exists>r. generateUploadUrl mockSignedUrl ''uuid'' 0 1700000000000 1700000000000
              (testUpload ''test-r2'') (presigner [testS3, testR2] ''round-robin'')
            = (r, presigner [testS3, testR2] ''round-robin'')
          \<and> map_sum id res_provider r = Inr ''test-r2'')"
proof -
  define s where "s = presigner [testS3, testR2] ''round-robin''"
  have h1: "providerId (testUpload ''test-r2'') = Some ''test-r2''"
    by (simp add: testUpload_def)
  have h2: "''test-r2'' \<noteq> []"
    by simp
  have h3: "find (\<lambda>p. Some (pid p) = providerId (testUpload ''test-r2'')) (providers s)
            = Some testR2"
    unfolding s_def by code_simp
  have h4: "\<bar>1700000000000 + int (nat_or (expiry (testUpload ''test-r2'')) (defaultExpiry s))
              * 1000\<bar> \<le> (8640000000000000 :: int)"
    unfolding s_def by code_simp
  have cl: "createClient testR2 =
              Inr \<lparr>cl_region = Some ''auto'', cl_endpoint = endpoint testR2,
                   cl_accessKeyId = accessKeyId testR2,
                   cl_secretAccessKey = secretAccessKey testR2, cl_forcePathStyle = True\<rparr>"
    by (simp add: createClient_def testR2_def)
  from explicit_provider_bypasses_selector [OF h1 h2 h3, of mockSignedUrl "''uuid''" 0
      1700000000000 1700000000000]
  obtain r s' where g: "generateUploadUrl mockSignedUrl ''uuid'' 0 1700000000000 1700000000000
                          (testUpload ''test-r2'') s = (r, s')"
      and fr: "\<forall>res. r = Inr res \<longrightarrow> s' = s \<and> res_provider res = ''test-r2''"
      and ok: "\<forall>cl url. createClient testR2 = Inr cl
                 \<and> mockSignedUrl cl
                     \<lparr>cmd_Bucket = bucket testR2,
                      cmd_Key = objectKey ''uuid'' (testUpload ''test-r2''),
                      cmd_ContentType = contentType (testUpload ''test-r2'')\<rparr>
                     (nat_or (expiry (testUpload ''test-r2'')) (defaultExpiry s)) = Inr url
                 \<longrightarrow> (if \<bar>1700000000000
                            + int (nat_or (expiry (testUpload ''test-r2'')) (defaultExpiry s))
                              * 1000\<bar> \<le> 8640000000000000
                      then \<exists>res. r = Inr res \<and> uploadUrl res = url
                      else r = Inl (UploadUrlFailed RangeError) \<and> s' = s)"
    by blast
  from ok cl h4 obtain res where "r = Inr res"
    by (auto simp: mockSignedUrl_def)
  with fr g have "generateUploadUrl mockSignedUrl ''uuid'' 0 1700000000000 1700000000000
                    (testUpload ''test-r2'') s = (r, s)
                  \<and> map_sum id res_provider r = Inr ''test-r2''"
    by auto
  with h1 h2 h3 h4 show ?thesis
    unfolding s_def by blast
qed

text \<open>
  With an expiry of \<open>10\<^sup>1\<^sup>3\<close> seconds the signer of the test suite still returns its URL,
  and the call then fails on the time of expiry.
\<close>

lemma upload_expiry_out_of_range:
  "generateUploadUrl mockSignedUrl ''uuid'' 0 1700000000000 1700000000000
     ((testUpload ''test-r2'')\<lparr>expiry := Some 10000000000000\<rparr>)
     (presigner [testS3, testR2] ''round-robin'')
   = (Inl (UploadUrlFailed RangeError), presigner [testS3, testR2] ''round-robin'')"
  by (simp add: generateUploadUrl_def testUpload_def presigner_def MultiBucket_def
      truthy_str_def createClient_def testS3_def testR2_def mockSignedUrl_def toISOString_def
      nat_or_def str_or_def uploadCatch_def Let_def)

end
